theory Spec2Isabelle
  imports Complex_Main "HOL-Library.Sublist"
begin

section \<open>Python string primitives used by the sanitizer\<close>

text \<open>
  A Python \<open>str\<close> is modelled as a \<open>string\<close>: a list of characters, one \<open>char\<close> per code
  point (code points below 256). \<open>len\<close> is \<open>length\<close>.
\<close>

text \<open>\<open>text.split('\n')\<close>: the lines between the newlines; always at least one line.\<close>

fun split_nl :: "string \<Rightarrow> string list" where
  "split_nl [] = [[]]"
| "split_nl (c # cs) =
     (if c = CHR 0x0A then [] # split_nl cs
      else (case split_nl cs of [] \<Rightarrow> [[c]] | l # ls \<Rightarrow> (c # l) # ls))"

text \<open>\<open>'\n'.join(lines)\<close>.\<close>

fun join_nl :: "string list \<Rightarrow> string" where
  "join_nl [] = []"
| "join_nl [l] = l"
| "join_nl (l # m # ls) = l @ CHR 0x0A # join_nl (m # ls)"

text \<open>
  \<open>str.isspace\<close> on one character below 256: tab, line feed, vertical tab, form feed,
  carriage return, the four separators 0x1C..0x1F, space, NEL (0x85) and the no-break
  space (0xA0).
\<close>

definition isspace :: "char \<Rightarrow> bool" where
  "isspace c \<longleftrightarrow>
     c \<in> set [CHR 0x09, CHR 0x0A, CHR 0x0B, CHR 0x0C, CHR 0x0D, CHR 0x1C, CHR 0x1D,
              CHR 0x1E, CHR 0x1F, CHR 0x20, CHR 0x85, CHR 0xA0]"

text \<open>\<open>s.strip()\<close>: leading and trailing whitespace removed.\<close>

definition strip :: "string \<Rightarrow> string" where
  "strip s = rev (dropWhile isspace (rev (dropWhile isspace s)))"

text \<open>
  What reading a file in text mode gives for the characters stored in it (universal
  newlines): a carriage return followed by a line feed, and a carriage return alone,
  become one line feed. Writing in text mode stores the string as it is.
\<close>

fun read_text :: "string \<Rightarrow> string" where
  "read_text [] = []"
| "read_text (c # cs) =
     (if c = CHR 0x0D then
        (case cs of
           [] \<Rightarrow> [CHR 0x0A]
         | d # ds \<Rightarrow> if d = CHR 0x0A then CHR 0x0A # read_text ds else CHR 0x0A # read_text cs)
      else c # read_text cs)"

section \<open>The chunker: \<open>chunk_text\<close>\<close>

text \<open>
  The loop of \<open>chunk_text\<close> over the lines, on the three locals \<open>chunks\<close>,
  \<open>current_chunk\<close> and \<open>current_size\<close>. \<open>chunk_size\<close> is a Python int.
\<close>

fun chunk_loop :: "int \<Rightarrow> string list \<Rightarrow> string list \<Rightarrow> string list \<Rightarrow> nat
    \<Rightarrow> string list \<times> string list \<times> nat" where
  "chunk_loop chunk_size [] chunks current_chunk current_size =
     (chunks, current_chunk, current_size)"
| "chunk_loop chunk_size (line # lines) chunks current_chunk current_size =
     (if int (current_size + length line) > chunk_size \<and> current_chunk \<noteq> []
      then chunk_loop chunk_size lines (chunks @ [join_nl current_chunk]) [line]
             (length line + 1)
      else chunk_loop chunk_size lines chunks (current_chunk @ [line])
             (current_size + length line + 1))"

text \<open>The chunks as they stand before the line \<open># Skip empty chunks\<close>.\<close>

definition unfiltered_chunks :: "string \<Rightarrow> int \<Rightarrow> string list" where
  "unfiltered_chunks text chunk_size =
     (case chunk_loop chunk_size (split_nl text) [] [] 0 of
        (chunks, current_chunk, current_size) \<Rightarrow>
          if current_chunk \<noteq> [] then chunks @ [join_nl current_chunk] else chunks)"

definition chunk_text :: "string \<Rightarrow> int \<Rightarrow> string list" where
  "chunk_text text chunk_size =
     filter (\<lambda>chunk. strip chunk \<noteq> []) (unfiltered_chunks text chunk_size)"

section \<open>Exceptions and the external collaborators\<close>

text \<open>
  The exceptions the program can meet. \<open>RetryError\<close> is what the retrying decorator
  raises once its attempts are used up (it wraps the last attempt's exception);
  \<open>UnboundLocalError\<close> names the local variable that was read before any assignment.
\<close>

datatype py_error =
    ValueError string
  | OSError string
  | IndexError
  | APIError string
  | OtherException string
  | RetryError py_error
  | UnboundLocalError string

text \<open>
  What \<open>open(file_path, 'r', encoding=encoding)\<close> followed by \<open>file.read()\<close> does for
  one encoding: the file decodes to the given characters (which \<open>read\<close> returns with
  universal newlines), decoding raises \<open>UnicodeDecodeError\<close>, or another error is raised
  (the path cannot be opened). A source file is this outcome for each encoding name.
\<close>

datatype open_read = Content string | RaisesUnicodeDecodeError | RaisesOSError string

type_synonym source_file = "string \<Rightarrow> open_read"

fun try_encodings :: "string \<Rightarrow> source_file \<Rightarrow> string list \<Rightarrow> py_error + string" where
  "try_encodings file_path src [] =
     Inl (ValueError (''Unable to read the file '' @ file_path
            @ '' with any of the attempted encodings''))"
| "try_encodings file_path src (encoding # encodings) =
     (case src encoding of
        Content content \<Rightarrow> Inr (read_text content)
      | RaisesUnicodeDecodeError \<Rightarrow> try_encodings file_path src encodings
      | RaisesOSError msg \<Rightarrow> Inl (OSError msg))"

definition read_file_with_fallback_encoding :: "string \<Rightarrow> source_file \<Rightarrow> py_error + string" where
  "read_file_with_fallback_encoding file_path src =
     try_encodings file_path src [''utf-8'', ''latin-1'', ''ascii'', ''utf-16'']"

text \<open>
  What one call of \<open>client.messages.create\<close> does: it returns a response whose first
  content block has the given text, raises \<open>anthropic.APIError\<close> with the given
  \<open>str(e)\<close>, or raises any other exception.
\<close>

datatype service_outcome = Response string | RaisesAPIError string | RaisesException string

text \<open>\<open>str.lower\<close> on characters below 256.\<close>

definition lower_char :: "char \<Rightarrow> char" where
  "lower_char c =
     (let n = (of_char c :: nat) in
      if (65 \<le> n \<and> n \<le> 90) \<or> (192 \<le> n \<and> n \<le> 222 \<and> n \<noteq> 215)
      then char_of (n + 32) else c)"

definition lower :: "string \<Rightarrow> string" where
  "lower s = map lower_char s"

section \<open>The processing log and the state of one worker\<close>

record chunk_info =
  chunk_number :: nat
  original_length :: nat
  cleaned_length :: nat
  cleaned :: bool

text \<open>
  An entry of \<open>log_data["errors"]\<close>: \<open>str(e)\<close> for a failure of the document, or
  \<open>f"Chunk {chunk_number}: {str(e)}"\<close> for a failed pass over one chunk.
\<close>

datatype error_entry = DocumentError py_error | ChunkError nat py_error

text \<open>
  The dictionary \<open>log_data\<close>. The keys \<open>total_chunks\<close>, \<open>end_time\<close>,
  \<open>processing_time\<close> and \<open>cleaned_chunks\<close> are absent (\<open>None\<close>) until assigned.
\<close>

record log_data =
  file_name :: string
  start_time :: real
  status :: string
  errors :: "error_entry list"
  chunks_info :: "chunk_info list"
  total_chunks :: "nat option"
  end_time :: "real option"
  processing_time :: "real option"
  cleaned_chunks :: "nat option"

text \<open>
  What one worker reads and writes: the clock (\<open>time.time()\<close>; in this model time passes
  in \<open>time.sleep\<close> only), the timestamps of the global rate limiter, the transformation
  service (the outcome of its k-th call) with the number of calls made so far, the
  delays slept between attempts by the retrying decorator, and the document's files: the
  chunk files by chunk number, the cleaned output and the JSON log. A file holds the
  string that was written to it. The k-th attempt to write a chunk file raises when
  \<open>chunk_write_error\<close> holds an error for \<open>k\<close> (\<open>chunk_writes\<close> counts the attempts), and
  writing the cleaned output raises when \<open>output_write_error\<close> holds an error; a write
  that raises leaves the file as it was. Writing the log is taken to succeed.
\<close>

record world =
  clock :: real
  limiter_calls :: "real list"
  service :: "nat \<Rightarrow> service_outcome"
  service_calls :: nat
  waits :: "real list"
  chunk_files :: "nat \<rightharpoonup> string"
  chunk_write_error :: "nat \<Rightarrow> py_error option"
  chunk_writes :: nat
  output_write_error :: "py_error option"
  output_file :: "string option"
  log_file :: "log_data option"

definition sleep :: "real \<Rightarrow> world \<Rightarrow> world" where
  "sleep seconds w = w\<lparr>clock := clock w + seconds\<rparr>"

section \<open>The rate limiter\<close>

text \<open>
  The body of \<open>RateLimiter.__call__.wrapper\<close> under the lock, for the clock reading
  \<open>now\<close> and the list \<open>self.calls\<close>: the new \<open>self.calls\<close>, and the time at which the
  wrapped function starts (\<open>now\<close>, or the end of the sleep), or the \<open>IndexError\<close> of
  \<open>self.calls[0]\<close> on an empty list.
\<close>

definition wrapper :: "int \<Rightarrow> real \<Rightarrow> real \<Rightarrow> real list \<Rightarrow> real list \<times> (py_error + real)" where
  "wrapper max_calls period now calls =
     (let calls1 = filter (\<lambda>t. now - t < period) calls in
      if int (length calls1) \<ge> max_calls then
        (case calls1 of
           [] \<Rightarrow> (calls1, Inl IndexError)
         | t0 # _ \<Rightarrow> (calls1 @ [now], Inr (now + (period - (now - t0)))))
      else (calls1 @ [now], Inr now))"

text \<open>
  A sequence of gated calls on one limiter: each call takes the lock at the next clock
  reading of the list. The result is \<open>self.calls\<close> after the last call and the start
  time of each call.
\<close>

fun gated_starts :: "int \<Rightarrow> real \<Rightarrow> real list \<Rightarrow> real list
    \<Rightarrow> py_error + real list \<times> real list" where
  "gated_starts max_calls period calls [] = Inr (calls, [])"
| "gated_starts max_calls period calls (now # nows) =
     (case wrapper max_calls period now calls of
        (calls', Inl e) \<Rightarrow> Inl e
      | (calls', Inr start) \<Rightarrow>
          (case gated_starts max_calls period calls' nows of
             Inl e \<Rightarrow> Inl e
           | Inr (calls'', starts) \<Rightarrow> Inr (calls'', start # starts)))"

text \<open>The number of starts in the trailing window \<open>(t - period, t]\<close>.\<close>

definition starts_in_window :: "real \<Rightarrow> real \<Rightarrow> real list \<Rightarrow> nat" where
  "starts_in_window period t starts = length (filter (\<lambda>s. t - period < s \<and> s \<le> t) starts)"

text \<open>
  The lock is held during the sleep, so a clock reading is never earlier than the start
  of the call before it.
\<close>

fun lock_order :: "real list \<Rightarrow> real list \<Rightarrow> bool" where
  "lock_order (now # now' # nows) (start # starts) \<longleftrightarrow>
     now \<le> start \<and> start \<le> now' \<and> lock_order (now' # nows) starts"
| "lock_order [now] [start] \<longleftrightarrow> now \<le> start"
| "lock_order [] [] \<longleftrightarrow> True"
| "lock_order _ _ \<longleftrightarrow> False"

section \<open>The retrying, rate-limited service call: \<open>clean_text_chunk\<close>\<close>

text \<open>The body of \<open>clean_text_chunk\<close>, for the outcome of its service call.\<close>

definition clean_text_chunk_undecorated :: "service_outcome \<Rightarrow> string \<Rightarrow> py_error + string \<times> bool" where
  "clean_text_chunk_undecorated outcome chunk =
     (case outcome of
        Response text \<Rightarrow> Inr (strip text, True)
      | RaisesAPIError msg \<Rightarrow>
          if sublist ''content filtering'' (lower msg) then Inr (chunk, False)
          else Inl (APIError msg)
      | RaisesException msg \<Rightarrow> Inl (OtherException msg))"

text \<open>
  \<open>@rate_limiter\<close> with \<open>rate_limiter = RateLimiter(max_calls=999, period=60)\<close>: the gate,
  then the call.
\<close>

definition rate_limited :: "string \<Rightarrow> world \<Rightarrow> (py_error + string \<times> bool) \<times> world" where
  "rate_limited chunk w =
     (case wrapper 999 60 (clock w) (limiter_calls w) of
        (calls', Inl e) \<Rightarrow> (Inl e, w\<lparr>limiter_calls := calls'\<rparr>)
      | (calls', Inr start) \<Rightarrow>
          (clean_text_chunk_undecorated (service w (service_calls w)) chunk,
           w\<lparr>limiter_calls := calls', clock := start, service_calls := Suc (service_calls w)\<rparr>))"

text \<open>
  The two policies of the decorator
  \<open>@retry(stop=stop_after_attempt(3), wait=wait_exponential(multiplier=1, min=4, max=10))\<close>,
  as the retrying library defines them on the number of the attempt that just failed.
\<close>

definition stop_after_attempt :: "nat \<Rightarrow> nat \<Rightarrow> bool" where
  "stop_after_attempt max_attempt_number attempt_number \<longleftrightarrow> attempt_number \<ge> max_attempt_number"

definition wait_exponential :: "real \<Rightarrow> real \<Rightarrow> real \<Rightarrow> nat \<Rightarrow> real" where
  "wait_exponential multiplier mn mx attempt_number =
     max (max 0 mn) (min (multiplier * 2 ^ (attempt_number - 1)) mx)"

text \<open>
  The retry loop from attempt \<open>attempt_number\<close> on: any exception of an attempt is
  retried after the wait, until the stop policy holds; a returned value ends the loop.
\<close>

function retry_from :: "nat \<Rightarrow> string \<Rightarrow> world \<Rightarrow> (py_error + string \<times> bool) \<times> world" where
  "retry_from attempt_number chunk w =
     (case rate_limited chunk w of
        (Inr result, w') \<Rightarrow> (Inr result, w')
      | (Inl e, w') \<Rightarrow>
          if stop_after_attempt 3 attempt_number then (Inl (RetryError e), w')
          else retry_from (Suc attempt_number) chunk
                 (sleep (wait_exponential 1 4 10 attempt_number)
                    (w'\<lparr>waits := waits w' @ [wait_exponential 1 4 10 attempt_number]\<rparr>)))"
  by pat_completeness auto
termination
  by (relation "measure (\<lambda>(attempt_number, chunk, w). 3 - attempt_number)")
     (auto simp: stop_after_attempt_def)

definition clean_text_chunk :: "string \<Rightarrow> nat \<Rightarrow> nat \<Rightarrow> world \<Rightarrow> (py_error + string \<times> bool) \<times> world" where
  "clean_text_chunk chunk number n_chunks w = retry_from 1 chunk w"

section \<open>The per-document processor: \<open>process_text_file\<close>\<close>

text \<open>
  \<open>with open(chunk_file_path, 'w', encoding='utf-8') as out_file: out_file.write(...)\<close>
  for the chunk file of number \<open>i\<close>: the error that it raises, if any, and the world after
  it.
\<close>

definition write_chunk_file :: "nat \<Rightarrow> string \<Rightarrow> world \<Rightarrow> py_error option \<times> world" where
  "write_chunk_file i content w =
     (case chunk_write_error w (chunk_writes w) of
        Some e \<Rightarrow> (Some e, w\<lparr>chunk_writes := Suc (chunk_writes w)\<rparr>)
      | None \<Rightarrow>
          (None, w\<lparr>chunk_writes := Suc (chunk_writes w),
                    chunk_files := (chunk_files w)(i \<mapsto> content)\<rparr>))"

text \<open>
  \<open>for i, chunk in enumerate(chunks, 1)\<close>: chunk \<open>i\<close> is written to its chunk file. The
  loop ends at the first write that raises.
\<close>

fun persist_chunks :: "(nat \<times> string) list \<Rightarrow> world \<Rightarrow> py_error option \<times> world" where
  "persist_chunks [] w = (None, w)"
| "persist_chunks ((i, chunk) # rest) w =
     (case write_chunk_file i chunk w of
        (Some e, w') \<Rightarrow> (Some e, w')
      | (None, w') \<Rightarrow> persist_chunks rest w')"

text \<open>
  The \<open>while True\<close> loop over one chunk, on \<open>log_data\<close>, the local \<open>cleaned_chunks\<close> and
  the world. The loop has no bound in the source: \<open>fuel\<close> bounds the number of passes,
  and \<open>None\<close> says that the loop has not ended within it. A pass that raises (the chunk
  file is missing, \<open>clean_text_chunk\<close> raises, or the chunk file cannot be written)
  appends to \<open>errors\<close>, sleeps 5 and runs again; \<open>cleaned_chunks\<close> is incremented before
  the chunk file is written.
\<close>

fun process_chunk :: "nat \<Rightarrow> nat \<Rightarrow> nat \<Rightarrow> log_data \<times> nat \<times> world
    \<Rightarrow> (log_data \<times> nat \<times> world) option" where
  "process_chunk 0 number n_chunks s = None"
| "process_chunk (Suc fuel) number n_chunks (log_data, n_cleaned, w) =
     (case chunk_files w number of
        None \<Rightarrow>
          process_chunk fuel number n_chunks
            (log_data\<lparr>errors := errors log_data @
                [ChunkError number (OSError ''No such file or directory'')]\<rparr>,
             n_cleaned, sleep 5 w)
      | Some content \<Rightarrow>
          (case clean_text_chunk (read_text content) number n_chunks w of
             (Inr (cleaned_chunk, was_cleaned), w') \<Rightarrow>
               (case write_chunk_file number (cleaned_chunk @ [CHR 0x0A, CHR 0x0A]) w' of
                  (None, w'') \<Rightarrow>
                    Some (log_data\<lparr>chunks_info := chunks_info log_data @
                            [\<lparr>chunk_number = number,
                              original_length = length (read_text content),
                              cleaned_length = length cleaned_chunk,
                              cleaned = was_cleaned\<rparr>]\<rparr>,
                          (if was_cleaned then n_cleaned + 1 else n_cleaned), w'')
                | (Some e, w'') \<Rightarrow>
                    process_chunk fuel number n_chunks
                      (log_data\<lparr>errors := errors log_data @ [ChunkError number e]\<rparr>,
                       (if was_cleaned then n_cleaned + 1 else n_cleaned), sleep 5 w''))
           | (Inl e, w') \<Rightarrow>
               process_chunk fuel number n_chunks
                 (log_data\<lparr>errors := errors log_data @ [ChunkError number e]\<rparr>,
                  n_cleaned, sleep 5 w')))"

text \<open>\<open>for i in range(len(chunks))\<close> with \<open>chunk_number = i + 1\<close>.\<close>

fun process_chunks :: "nat \<Rightarrow> nat list \<Rightarrow> nat \<Rightarrow> log_data \<times> nat \<times> world
    \<Rightarrow> (log_data \<times> nat \<times> world) option" where
  "process_chunks fuel [] n_chunks s = Some s"
| "process_chunks fuel (i # rest) n_chunks s =
     (case process_chunk fuel (i + 1) n_chunks s of
        None \<Rightarrow> None
      | Some s' \<Rightarrow> process_chunks fuel rest n_chunks s')"

text \<open>
  The recombination loop \<open>for i in range(1, len(chunks) + 1)\<close> on the local
  \<open>cleaned_text\<close>: each chunk file is read in text mode; one that does not exist is
  skipped.
\<close>

fun combine_chunks :: "(nat \<rightharpoonup> string) \<Rightarrow> nat list \<Rightarrow> string \<Rightarrow> string" where
  "combine_chunks files [] cleaned_text = cleaned_text"
| "combine_chunks files (i # rest) cleaned_text =
     (case files i of
        Some content \<Rightarrow> combine_chunks files rest (cleaned_text @ read_text content)
      | None \<Rightarrow> combine_chunks files rest cleaned_text)"

text \<open>
  The \<open>finally\<close> block and the \<open>return cleaned_chunks, len(chunks)\<close> after it. The two
  locals are \<open>None\<close> when no assignment to them was reached.
\<close>

definition finalize :: "log_data \<Rightarrow> nat option \<Rightarrow> string list option \<Rightarrow> world
    \<Rightarrow> (py_error + nat \<times> nat) \<times> world" where
  "finalize log_data n_cleaned chunks w =
     (let log_data' = log_data\<lparr>end_time := Some (clock w),
                      processing_time := Some (clock w - start_time log_data)\<rparr>
      in ((case n_cleaned of
             None \<Rightarrow> Inl (UnboundLocalError ''cleaned_chunks'')
           | Some c \<Rightarrow>
               (case chunks of
                  None \<Rightarrow> Inl (UnboundLocalError ''chunks'')
                | Some cs \<Rightarrow> Inr (c, length cs))),
          w\<lparr>log_file := Some log_data'\<rparr>))"

text \<open>
  \<open>process_text_file\<close> for the source file \<open>src\<close> at \<open>file_path\<close>, whose base name is
  \<open>base_name\<close>: the result is the returned pair or the exception that leaves the
  function, with the world it leaves behind. An exception of the read, of the loop that
  writes the chunk files or of the write of the cleaned output reaches the handler
  \<open>except Exception\<close>; the local \<open>cleaned_chunks\<close> is assigned after the chunk files were
  written.
\<close>

definition process_text_file :: "nat \<Rightarrow> string \<Rightarrow> string \<Rightarrow> source_file \<Rightarrow> world
    \<Rightarrow> ((py_error + nat \<times> nat) \<times> world) option" where
  "process_text_file fuel file_path base_name src w =
     (let log_data0 = \<lparr>file_name = base_name, start_time = clock w, status = ''processing'',
                  errors = [], chunks_info = [], total_chunks = None, end_time = None,
                  processing_time = None, cleaned_chunks = None\<rparr>
      in case read_file_with_fallback_encoding file_path src of
           Inl e \<Rightarrow>
             Some (finalize (log_data0\<lparr>status := ''failed'',
                                   errors := errors log_data0 @ [DocumentError e]\<rparr>) None None w)
         | Inr text \<Rightarrow>
             (let chunks = chunk_text text 200;
                  log_data1 = log_data0\<lparr>total_chunks := Some (length chunks)\<rparr>
              in case persist_chunks (enumerate 1 chunks) w of
                   (Some e, w1) \<Rightarrow>
                     Some (finalize (log_data1\<lparr>status := ''failed'',
                                       errors := errors log_data1 @ [DocumentError e]\<rparr>)
                             None (Some chunks) w1)
                 | (None, w1) \<Rightarrow>
                     (case process_chunks fuel [0..<length chunks] (length chunks)
                             (log_data1, 0, w1) of
                        None \<Rightarrow> None
                      | Some (log_data2, n_cleaned, w2) \<Rightarrow>
                          (let cleaned_text =
                                 combine_chunks (chunk_files w2) [1..<length chunks + 1] []
                           in case output_write_error w2 of
                                Some e \<Rightarrow>
                                  Some (finalize
                                          (log_data2\<lparr>status := ''failed'',
                                             errors := errors log_data2 @ [DocumentError e]\<rparr>)
                                          (Some n_cleaned) (Some chunks) w2)
                              | None \<Rightarrow>
                                  Some (finalize
                                          (log_data2\<lparr>status := ''completed'',
                                             end_time := Some (clock w2),
                                             processing_time :=
                                               Some (clock w2 - start_time log_data2),
                                             cleaned_chunks := Some n_cleaned\<rparr>)
                                          (Some n_cleaned) (Some chunks)
                                          (w2\<lparr>output_file := Some cleaned_text\<rparr>))))))"

section \<open>The batch orchestrator: \<open>main\<close>\<close>

text \<open>
  The loop \<open>for future in as_completed(futures)\<close> on the locals \<open>successful_files\<close>,
  \<open>total_chunks\<close> and \<open>total_cleaned_chunks\<close>. The list holds what each worker's
  \<open>process_text_file\<close> ended with, in completion order; \<open>future.result()\<close> raises again
  the exception of a worker that raised, and nothing in \<open>main\<close> catches it.
\<close>

fun as_completed_loop :: "(py_error + nat \<times> nat) list \<Rightarrow> int \<times> int \<times> int
    \<Rightarrow> py_error + int \<times> int \<times> int" where
  "as_completed_loop [] acc = Inr acc"
| "as_completed_loop (r # rest) (n_successful, n_total, n_total_cleaned) =
     (case r of
        Inl e \<Rightarrow> Inl e
      | Inr (c, t) \<Rightarrow>
          as_completed_loop rest
            ((if c > 0 then n_successful + 1 else n_successful),
             n_total + int t, n_total_cleaned + int c))"

text \<open>The counts of the summary report (the key \<open>Total chunks\<close> is \<open>summary_total_chunks\<close>).\<close>

record summary =
  total_files :: int
  successful_files :: int
  failed_files :: int
  summary_total_chunks :: int
  total_cleaned_chunks :: int
  not_cleaned_chunks :: int

definition main :: "(py_error + nat \<times> nat) list \<Rightarrow> py_error + summary" where
  "main results =
     (case as_completed_loop results (0, 0, 0) of
        Inl e \<Rightarrow> Inl e
      | Inr (n_successful, n_total, n_total_cleaned) \<Rightarrow>
          Inr \<lparr>total_files = int (length results),
               successful_files = n_successful,
               failed_files = int (length results) - n_successful,
               summary_total_chunks = n_total,
               total_cleaned_chunks = n_total_cleaned,
               not_cleaned_chunks = n_total - n_total_cleaned\<rparr>)"

section \<open>The line groups behind the chunks\<close>

text \<open>
  The loop of \<open>chunk_text\<close> once more, keeping each chunk as the list of its lines instead
  of their join. It is used in the proofs only: \<open>chunk_loop_groups\<close> below shows that the
  chunks are the joins of these groups.
\<close>

fun group_loop :: "int \<Rightarrow> string list \<Rightarrow> string list list \<Rightarrow> string list \<Rightarrow> nat
    \<Rightarrow> string list list \<times> string list \<times> nat" where
  "group_loop chunk_size [] groups current_chunk current_size =
     (groups, current_chunk, current_size)"
| "group_loop chunk_size (line # lines) groups current_chunk current_size =
     (if int (current_size + length line) > chunk_size \<and> current_chunk \<noteq> []
      then group_loop chunk_size lines (groups @ [current_chunk]) [line] (length line + 1)
      else group_loop chunk_size lines groups (current_chunk @ [line])
             (current_size + length line + 1))"

definition line_groups :: "string \<Rightarrow> int \<Rightarrow> string list list" where
  "line_groups text chunk_size =
     (case group_loop chunk_size (split_nl text) [] [] 0 of
        (groups, current_chunk, current_size) \<Rightarrow>
          if current_chunk \<noteq> [] then groups @ [current_chunk] else groups)"

section \<open>Example inputs\<close>

text \<open>
  A worker's world at time 0, before any call was made and any file written, for a given
  behaviour of the service; no write raises in it. The concrete instances of the theorems
  below start from it. \<open>lines_of\<close> is the text of three lines of the given lengths: a
  line of \<open>a\<close>, a line of spaces and a line of \<open>b\<close>.
\<close>

definition fresh_world :: "(nat \<Rightarrow> service_outcome) \<Rightarrow> world" where
  "fresh_world svc =
     \<lparr>clock = 0, limiter_calls = [], service = svc, service_calls = 0, waits = [],
      chunk_files = Map.empty, chunk_write_error = (\<lambda>k. None), chunk_writes = 0,
      output_write_error = None, output_file = None, log_file = None\<rparr>"

definition lines_of :: "nat \<Rightarrow> nat \<Rightarrow> nat \<Rightarrow> string" where
  "lines_of i j k =
     replicate i (CHR ''a'') @ CHR 0x0A # replicate j (CHR '' '') @ CHR 0x0A # replicate k (CHR ''b'')"

section \<open>Properties of the chunker\<close>

lemma chunk_loop_groups:
  "chunk_loop S ls (map join_nl gs) cur sz =
     (case group_loop S ls gs cur sz of (gs', cur', sz') \<Rightarrow> (map join_nl gs', cur', sz'))"
proof (induction ls arbitrary: gs cur sz)
  case Nil
  show ?case by simp
next
  case (Cons l ls)
  have "chunk_loop S ls (map join_nl (gs @ [cur])) [l] (length l + 1) =
     (case group_loop S ls (gs @ [cur]) [l] (length l + 1) of
        (gs', cur', sz') \<Rightarrow> (map join_nl gs', cur', sz'))"
    by (rule Cons.IH)
  moreover have "chunk_loop S ls (map join_nl gs) (cur @ [l]) (sz + length l + 1) =
     (case group_loop S ls gs (cur @ [l]) (sz + length l + 1) of
        (gs', cur', sz') \<Rightarrow> (map join_nl gs', cur', sz'))"
    by (rule Cons.IH)
  ultimately show ?case by simp
qed

lemma unfiltered_chunks_groups: "unfiltered_chunks T S = map join_nl (line_groups T S)"
  using chunk_loop_groups [of S "split_nl T" "[]" "[]" 0]
  by (simp add: unfiltered_chunks_def line_groups_def split: prod.splits)

lemma group_loop_concat:
  "group_loop S ls gs cur sz = (gs', cur', sz') \<Longrightarrow>
     concat gs' @ cur' = concat gs @ cur @ ls \<and> ([] \<notin> set gs \<longrightarrow> [] \<notin> set gs')"
  by (induction ls arbitrary: gs cur sz) (auto split: if_splits)

lemma concat_line_groups: "concat (line_groups T S) = split_nl T"
  using group_loop_concat [of S "split_nl T" "[]" "[]" 0]
  by (auto simp: line_groups_def split: prod.splits)

lemma line_groups_nonempty: "[] \<notin> set (line_groups T S)"
proof -
  obtain gs cur sz where g: "group_loop S (split_nl T) [] [] 0 = (gs, cur, sz)"
    by (cases "group_loop S (split_nl T) [] [] 0") auto
  from group_loop_concat [OF g] have "[] \<notin> set gs" by simp
  with g show ?thesis by (simp add: line_groups_def)
qed

lemma split_nl_ne [simp]: "split_nl s \<noteq> []"
  by (induction s) (auto split: list.splits)

lemma split_nl_append: "split_nl (a @ CHR 0x0A # b) = split_nl a @ split_nl b"
  by (induction a) (auto split: list.splits)

lemma split_nl_no_newline: "CHR 0x0A \<notin> set l \<Longrightarrow> split_nl l = [l]"
  by (induction l) auto

lemma split_nl_lines: "l \<in> set (split_nl s) \<Longrightarrow> CHR 0x0A \<notin> set l"
  by (induction s arbitrary: l) (auto split: if_splits list.splits)

lemma split_join_concat: "xs \<noteq> [] \<Longrightarrow> split_nl (join_nl xs) = concat (map split_nl xs)"
  by (induction xs rule: join_nl.induct) (auto simp: split_nl_append)

lemma split_join_lines:
  "g \<noteq> [] \<Longrightarrow> \<forall>l\<in>set g. CHR 0x0A \<notin> set l \<Longrightarrow> split_nl (join_nl g) = g"
  by (induction g rule: join_nl.induct) (auto simp: split_nl_append split_nl_no_newline)

lemma strip_empty_iff: "strip s = [] \<longleftrightarrow> (\<forall>c\<in>set s. isspace c)"
proof -
  define d where "d = dropWhile isspace s"
  have 1: "strip s = [] \<longleftrightarrow> (\<forall>c\<in>set d. isspace c)"
    unfolding strip_def d_def [symmetric] by (simp add: dropWhile_eq_Nil_conv)
  have 2: "(\<forall>c\<in>set d. isspace c) \<longleftrightarrow> d = []"
  proof (cases d)
    case Nil
    then show ?thesis by simp
  next
    case (Cons c cs)
    then have "\<not> isspace c" using hd_dropWhile [of isspace s] by (simp add: d_def)
    with Cons show ?thesis by auto
  qed
  have 3: "d = [] \<longleftrightarrow> (\<forall>c\<in>set s. isspace c)"
    unfolding d_def by (rule dropWhile_eq_Nil_conv)
  from 1 2 3 show ?thesis by blast
qed

lemma isspace_newline: "isspace (CHR 0x0A)"
  by (simp add: isspace_def)

lemma strip_join_empty_iff: "strip (join_nl g) = [] \<longleftrightarrow> (\<forall>l\<in>set g. strip l = [])"
  by (induction g rule: join_nl.induct) (auto simp: strip_empty_iff isspace_newline)

lemma line_groups_ne: "line_groups T S \<noteq> []"
proof
  assume "line_groups T S = []"
  then have "split_nl T = []" using concat_line_groups [of T S] by simp
  then show False by simp
qed

lemma line_groups_lines:
  "g \<in> set (line_groups T S) \<Longrightarrow> l \<in> set g \<Longrightarrow> CHR 0x0A \<notin> set l"
proof -
  assume "g \<in> set (line_groups T S)" "l \<in> set g"
  then have "l \<in> set (concat (line_groups T S))" by auto
  then show ?thesis by (simp add: concat_line_groups split_nl_lines)
qed

lemma split_join_groups:
  assumes "gs \<noteq> []" "[] \<notin> set gs" "\<forall>g\<in>set gs. \<forall>l\<in>set g. CHR 0x0A \<notin> set l"
  shows "split_nl (join_nl (map join_nl gs)) = concat gs"
proof -
  have "map split_nl (map join_nl gs) = gs"
    using assms(2,3) by (induction gs) (auto simp: split_join_lines)
  with assms(1) show ?thesis by (simp add: split_join_concat)
qed

lemma unfiltered_chunks_lines: "split_nl (join_nl (unfiltered_chunks T S)) = split_nl T"
proof -
  have "split_nl (join_nl (map join_nl (line_groups T S))) = concat (line_groups T S)"
    by (rule split_join_groups) (auto simp: line_groups_ne line_groups_nonempty dest: line_groups_lines)
  then show ?thesis by (simp add: unfiltered_chunks_groups concat_line_groups)
qed

lemma chunk_text_groups:
  "chunk_text T S = map join_nl (filter (\<lambda>g. strip (join_nl g) \<noteq> []) (line_groups T S))"
  by (simp add: chunk_text_def unfiltered_chunks_groups filter_map comp_def)

lemma filter_concat_kept:
  "filter (\<lambda>l. strip l \<noteq> []) (concat (filter (\<lambda>g. strip (join_nl g) \<noteq> []) gs)) =
   filter (\<lambda>l. strip l \<noteq> []) (concat gs)"
  by (induction gs) (auto simp: strip_join_empty_iff filter_empty_conv)

lemma subseq_concat_filter: "subseq (concat (filter P gs)) (concat gs)"
  by (induction gs) (auto intro: list_emb_append_mono)

lemma chunk_text_kept_lines:
  assumes "chunk_text T S \<noteq> []"
  shows "split_nl (join_nl (chunk_text T S)) =
         concat (filter (\<lambda>g. strip (join_nl g) \<noteq> []) (line_groups T S))"
proof -
  let ?ks = "filter (\<lambda>g. strip (join_nl g) \<noteq> []) (line_groups T S)"
  from assms have ne: "?ks \<noteq> []" by (simp add: chunk_text_groups)
  have "split_nl (join_nl (map join_nl ?ks)) = concat ?ks"
    using ne by (rule split_join_groups) (auto simp: line_groups_nonempty dest: line_groups_lines)
  then show ?thesis by (simp add: chunk_text_groups)
qed

lemma chunk_text_nonblank_lines:
  "filter (\<lambda>l. strip l \<noteq> []) (split_nl (join_nl (chunk_text T S))) =
   filter (\<lambda>l. strip l \<noteq> []) (split_nl T)"
proof (cases "chunk_text T S = []")
  case True
  then have "filter (\<lambda>g. strip (join_nl g) \<noteq> []) (line_groups T S) = []"
    by (simp add: chunk_text_groups)
  then have "filter (\<lambda>l. strip l \<noteq> []) (concat (line_groups T S)) = []"
    using filter_concat_kept [of "line_groups T S"] by simp
  with True show ?thesis by (simp add: concat_line_groups strip_def)
next
  case False
  then show ?thesis
    by (simp add: chunk_text_kept_lines filter_concat_kept concat_line_groups)
qed

lemma map_split_join_groups:
  assumes "[] \<notin> set gs" "\<forall>g\<in>set gs. \<forall>l\<in>set g. CHR 0x0A \<notin> set l"
  shows "map split_nl (map join_nl gs) = gs"
  using assms by (induction gs) (auto simp: split_join_lines)

lemma unfiltered_chunks_split: "map split_nl (unfiltered_chunks T S) = line_groups T S"
  unfolding unfiltered_chunks_groups
  by (rule map_split_join_groups) (auto simp: line_groups_nonempty dest: line_groups_lines)

lemma dropped_chunk_lines:
  assumes "chunk \<in> set (unfiltered_chunks T S)" "strip chunk = []" "l \<in> set (split_nl chunk)"
  shows "strip l = []"
proof -
  from assms(1) obtain g where g: "g \<in> set (line_groups T S)" and c: "chunk = join_nl g"
    by (auto simp: unfiltered_chunks_groups)
  from g have "g \<noteq> []" using line_groups_nonempty [of T S] by auto
  moreover from g have "\<forall>l\<in>set g. CHR 0x0A \<notin> set l" by (auto dest: line_groups_lines)
  ultimately have "split_nl chunk = g" unfolding c by (rule split_join_lines)
  with assms(2,3) c show ?thesis by (simp add: strip_join_empty_iff)
qed

text \<open>
  Claim C4, as the code has it. \<open>chunk_text\<close> drops the chunks that are empty after
  trimming, so joining its chunks with a newline and splitting on newlines does not give
  back every line of the text: for the text of the lines \<open>a\<close>, the empty line and \<open>b\<close>
  with target size 1, the empty line is a chunk of its own and is lost.
\<close>

theorem chunk_text_drops_blank_line:
  "split_nl (join_nl (chunk_text ''a\<newline>\<newline>b'' 1)) \<noteq> split_nl ''a\<newline>\<newline>b''"
  by (simp add: chunk_text_def unfiltered_chunks_def strip_def isspace_def)

text \<open>
  Claim C4, amended. For every text \<open>T\<close> and every target size \<open>S\<close>: the line sequence
  of \<open>T\<close> is the concatenation, in order, of the line sequences of the chunks formed
  before the empty chunks are skipped, and \<open>chunk_text(T, S)\<close> keeps exactly those of
  them that are non-empty after trimming; every line of a chunk that is dropped is empty
  after trimming. When a chunk is kept, joining the kept chunks with a newline and
  splitting on newlines gives the concatenation of the line sequences of the kept chunks,
  a subsequence of the lines of \<open>T\<close>: the lines of \<open>T\<close> in their order, none duplicated,
  without the lines of the dropped chunks. When no chunk is kept the result is one empty
  line. When no chunk is dropped the result is the line sequence of \<open>T\<close> exactly. The
  chunks are a function of \<open>(T, S)\<close>.
\<close>

theorem chunk_text_rejoin_lines:
  "concat (map split_nl (unfiltered_chunks T S)) = split_nl T
   \<and> chunk_text T S = filter (\<lambda>chunk. strip chunk \<noteq> []) (unfiltered_chunks T S)
   \<and> (\<forall>chunk\<in>set (unfiltered_chunks T S). strip chunk = [] \<longrightarrow>
         (\<forall>l\<in>set (split_nl chunk). strip l = []))
   \<and> (chunk_text T S \<noteq> [] \<longrightarrow>
         split_nl (join_nl (chunk_text T S)) = concat (map split_nl (chunk_text T S))
         \<and> subseq (split_nl (join_nl (chunk_text T S))) (split_nl T))
   \<and> (chunk_text T S = [] \<longrightarrow> split_nl (join_nl (chunk_text T S)) = [[]])
   \<and> ((\<forall>chunk\<in>set (unfiltered_chunks T S). strip chunk \<noteq> []) \<longrightarrow>
        split_nl (join_nl (chunk_text T S)) = split_nl T)"
proof (intro conjI impI ballI)
  show "concat (map split_nl (unfiltered_chunks T S)) = split_nl T"
    by (simp add: unfiltered_chunks_split concat_line_groups)
next
  show "chunk_text T S = filter (\<lambda>chunk. strip chunk \<noteq> []) (unfiltered_chunks T S)"
    by (simp add: chunk_text_def)
next
  fix chunk l
  assume "chunk \<in> set (unfiltered_chunks T S)" "strip chunk = []" "l \<in> set (split_nl chunk)"
  then show "strip l = []" by (rule dropped_chunk_lines)
next
  assume "chunk_text T S \<noteq> []"
  then show "split_nl (join_nl (chunk_text T S)) = concat (map split_nl (chunk_text T S))"
    by (rule split_join_concat)
next
  assume "chunk_text T S \<noteq> []"
  then have "split_nl (join_nl (chunk_text T S)) =
      concat (filter (\<lambda>g. strip (join_nl g) \<noteq> []) (line_groups T S))"
    by (rule chunk_text_kept_lines)
  moreover have "subseq (concat (filter (\<lambda>g. strip (join_nl g) \<noteq> []) (line_groups T S)))
      (concat (line_groups T S))"
    by (rule subseq_concat_filter)
  ultimately show "subseq (split_nl (join_nl (chunk_text T S))) (split_nl T)"
    by (simp add: concat_line_groups)
next
  assume "chunk_text T S = []"
  then show "split_nl (join_nl (chunk_text T S)) = [[]]" by simp
next
  assume "\<forall>chunk\<in>set (unfiltered_chunks T S). strip chunk \<noteq> []"
  then have "chunk_text T S = unfiltered_chunks T S"
    by (simp add: chunk_text_def)
  then show "split_nl (join_nl (chunk_text T S)) = split_nl T"
    by (simp add: unfiltered_chunks_lines)
qed

theorem chunk_text_rejoin_lines_witness:
  "unfiltered_chunks ''a\<newline>\<newline>b'' 1 = [''a'', [], ''b'']
   \<and> chunk_text ''a\<newline>\<newline>b'' 1 = [''a'', ''b'']
   \<and> split_nl (join_nl (chunk_text ''a\<newline>\<newline>b'' 1)) = [''a'', ''b'']
   \<and> subseq (split_nl (join_nl (chunk_text ''a\<newline>\<newline>b'' 1))) (split_nl ''a\<newline>\<newline>b'')
   \<and> chunk_text [] 1 = []
   \<and> split_nl (join_nl (chunk_text [] 1)) = [[]]
   \<and> unfiltered_chunks ''a\<newline>b'' 1 = [''a'', ''b'']
   \<and> split_nl (join_nl (chunk_text ''a\<newline>b'' 1)) = split_nl ''a\<newline>b''"
  using chunk_text_rejoin_lines [of "''a\<newline>\<newline>b''" 1]
    chunk_text_rejoin_lines [of "[]" 1]
    chunk_text_rejoin_lines [of "''a\<newline>b''" 1]
  by (simp add: chunk_text_def unfiltered_chunks_def strip_def isspace_def)

section \<open>Properties of the retrying, rate-limited call\<close>

declare retry_from.simps [simp del]

lemma wrapper_999:
  "\<exists>calls' start. wrapper 999 60 now calls = (calls', Inr start)"
  by (simp add: wrapper_def Let_def split: list.splits)

lemma rate_limited_outcome:
  "\<exists>calls' start. rate_limited chunk w =
     (clean_text_chunk_undecorated (service w (service_calls w)) chunk,
      w\<lparr>limiter_calls := calls', clock := start, service_calls := Suc (service_calls w)\<rparr>)"
proof -
  obtain calls' start where "wrapper 999 60 (clock w) (limiter_calls w) = (calls', Inr start)"
    using wrapper_999 by blast
  then show ?thesis by (auto simp: rate_limited_def)
qed

lemma wait_exponential_1_4_10:
  "wait_exponential 1 4 10 (Suc 0) = 4" "wait_exponential 1 4 10 2 = 4"
  by (simp_all add: wait_exponential_def)

lemma retry_from_returns:
  assumes "clean_text_chunk_undecorated (service w (service_calls w)) chunk = Inr r"
  shows "\<exists>w'. retry_from k chunk w = (Inr r, w')
    \<and> service w' = service w \<and> service_calls w' = Suc (service_calls w) \<and> waits w' = waits w
    \<and> chunk_files w' = chunk_files w \<and> output_write_error w' = output_write_error w
    \<and> output_file w' = output_file w \<and> log_file w' = log_file w
    \<and> chunk_write_error w' = chunk_write_error w \<and> chunk_writes w' = chunk_writes w"
proof -
  obtain calls' start where "rate_limited chunk w =
     (clean_text_chunk_undecorated (service w (service_calls w)) chunk,
      w\<lparr>limiter_calls := calls', clock := start, service_calls := Suc (service_calls w)\<rparr>)"
    using rate_limited_outcome by blast
  with assms show ?thesis
    by (simp add: retry_from.simps [of k chunk w])
qed

lemma retry_from_again:
  assumes "clean_text_chunk_undecorated (service w (service_calls w)) chunk = Inl e"
    and "k < 3"
  shows "\<exists>w'. retry_from k chunk w = retry_from (Suc k) chunk w'
    \<and> service w' = service w \<and> service_calls w' = Suc (service_calls w)
    \<and> waits w' = waits w @ [wait_exponential 1 4 10 k]
    \<and> chunk_files w' = chunk_files w \<and> output_write_error w' = output_write_error w
    \<and> output_file w' = output_file w \<and> log_file w' = log_file w
    \<and> chunk_write_error w' = chunk_write_error w \<and> chunk_writes w' = chunk_writes w"
proof -
  obtain calls' start where rl: "rate_limited chunk w =
     (clean_text_chunk_undecorated (service w (service_calls w)) chunk,
      w\<lparr>limiter_calls := calls', clock := start, service_calls := Suc (service_calls w)\<rparr>)"
    using rate_limited_outcome by blast
  let ?w1 = "w\<lparr>limiter_calls := calls', clock := start, service_calls := Suc (service_calls w)\<rparr>"
  let ?w' = "sleep (wait_exponential 1 4 10 k)
               (?w1\<lparr>waits := waits ?w1 @ [wait_exponential 1 4 10 k]\<rparr>)"
  have "retry_from k chunk w = retry_from (Suc k) chunk ?w'"
    using assms rl by (simp add: retry_from.simps [of k chunk w] stop_after_attempt_def)
  moreover have "service ?w' = service w \<and> service_calls ?w' = Suc (service_calls w)
    \<and> waits ?w' = waits w @ [wait_exponential 1 4 10 k]
    \<and> chunk_files ?w' = chunk_files w \<and> output_write_error ?w' = output_write_error w
    \<and> output_file ?w' = output_file w \<and> log_file ?w' = log_file w
    \<and> chunk_write_error ?w' = chunk_write_error w \<and> chunk_writes ?w' = chunk_writes w"
    by (simp add: sleep_def)
  ultimately show ?thesis by blast
qed

lemma retry_from_gives_up:
  assumes "clean_text_chunk_undecorated (service w (service_calls w)) chunk = Inl e"
    and "3 \<le> k"
  shows "\<exists>w'. retry_from k chunk w = (Inl (RetryError e), w')
    \<and> service w' = service w \<and> service_calls w' = Suc (service_calls w) \<and> waits w' = waits w
    \<and> chunk_files w' = chunk_files w \<and> output_write_error w' = output_write_error w
    \<and> output_file w' = output_file w \<and> log_file w' = log_file w
    \<and> chunk_write_error w' = chunk_write_error w \<and> chunk_writes w' = chunk_writes w"
proof -
  obtain calls' start where "rate_limited chunk w =
     (clean_text_chunk_undecorated (service w (service_calls w)) chunk,
      w\<lparr>limiter_calls := calls', clock := start, service_calls := Suc (service_calls w)\<rparr>)"
    using rate_limited_outcome by blast
  with assms show ?thesis
    by (simp add: retry_from.simps [of k chunk w] stop_after_attempt_def)
qed

lemma wait_exponential_mono:
  "wait_exponential 1 4 10 k \<le> wait_exponential 1 4 10 (Suc k)"
  unfolding wait_exponential_def
  by (intro max.mono min.mono order_refl mult_left_mono power_increasing) auto

lemma wait_exponential_formula: "wait_exponential 1 4 10 k = max 4 (min (2 ^ (k - 1)) 10)"
  by (simp add: wait_exponential_def)

lemma wait_exponential_bounds:
  "4 \<le> wait_exponential 1 4 10 k \<and> wait_exponential 1 4 10 k \<le> 10"
  by (simp add: wait_exponential_def)

text \<open>
  Claim C9. When the service call of an attempt reports a content-policy rejection (an
  \<open>anthropic.APIError\<close> whose lower-cased text contains \<open>content filtering\<close>),
  \<open>clean_text_chunk\<close> returns the original chunk text paired with \<open>False\<close>: a
  returned value, not an exception. It makes exactly one service call for it and sleeps
  no retry delay. The same holds of the retry loop entered at any attempt number: the
  attempt that meets the rejection is the last one.
\<close>

theorem rejection_returns_original:
  assumes "service w (service_calls w) = RaisesAPIError msg"
    and "sublist ''content filtering'' (lower msg)"
  shows "fst (clean_text_chunk chunk number n w) = Inr (chunk, False)
    \<and> service_calls (snd (clean_text_chunk chunk number n w)) = Suc (service_calls w)
    \<and> waits (snd (clean_text_chunk chunk number n w)) = waits w
    \<and> fst (retry_from attempt_number chunk w) = Inr (chunk, False)
    \<and> service_calls (snd (retry_from attempt_number chunk w)) = Suc (service_calls w)
    \<and> waits (snd (retry_from attempt_number chunk w)) = waits w"
proof -
  from assms have u: "clean_text_chunk_undecorated (service w (service_calls w)) chunk =
      Inr (chunk, False)"
    by (simp add: clean_text_chunk_undecorated_def)
  from retry_from_returns [OF u, of 1] retry_from_returns [OF u, of attempt_number]
  show ?thesis
    by (auto simp: clean_text_chunk_def)
qed

theorem rejection_returns_original_witness:
  "fst (clean_text_chunk ''Page 7'' 1 1
          (fresh_world (\<lambda>k. RaisesAPIError ''Content filtering triggered''))) =
     Inr (''Page 7'', False)
   \<and> service_calls (snd (clean_text_chunk ''Page 7'' 1 1
          (fresh_world (\<lambda>k. RaisesAPIError ''Content filtering triggered'')))) = 1
   \<and> waits (snd (clean_text_chunk ''Page 7'' 1 1
          (fresh_world (\<lambda>k. RaisesAPIError ''Content filtering triggered'')))) = []"
proof -
  have h: "sublist ''content filtering'' (lower ''Content filtering triggered'')"
    by code_simp
  show ?thesis
    using rejection_returns_original
      [of "fresh_world (\<lambda>k. RaisesAPIError ''Content filtering triggered'')"
          "''Content filtering triggered''" "''Page 7''" 1 1, OF _ h]
    by (simp add: fresh_world_def)
qed

text \<open>
  Claim C8, as the code has it. With \<open>wait_exponential(multiplier=1, min=4, max=10)\<close>
  the value 4 is a floor under the doubling sequence 1, 2, 4, 8, ..., not its first
  term: for a call that fails three times the two delays slept are 4 and 4, not 4 and 8.
  What reaches the caller after the third attempt is the decorator's \<open>RetryError\<close>, not
  the error of the call.
\<close>

theorem transient_failure_delays_are_floored:
  "waits (snd (clean_text_chunk ''Page 7'' 1 1
      (fresh_world (\<lambda>k. RaisesException ''connection reset'')))) = [4, 4]
   \<and> waits (snd (clean_text_chunk ''Page 7'' 1 1
      (fresh_world (\<lambda>k. RaisesException ''connection reset'')))) \<noteq> [4, 8]
   \<and> fst (clean_text_chunk ''Page 7'' 1 1
      (fresh_world (\<lambda>k. RaisesException ''connection reset''))) =
       Inl (RetryError (OtherException ''connection reset''))
   \<and> fst (clean_text_chunk ''Page 7'' 1 1
      (fresh_world (\<lambda>k. RaisesException ''connection reset''))) \<noteq>
       Inl (OtherException ''connection reset'')"
  by (simp add: clean_text_chunk_def retry_from.simps rate_limited_def wrapper_def
      clean_text_chunk_undecorated_def fresh_world_def sleep_def stop_after_attempt_def
      wait_exponential_def)

text \<open>
  Claim C8, amended. When the service call fails with an error that is not a
  content-policy rejection on each of the next three attempts, \<open>clean_text_chunk\<close> makes
  exactly three service calls and then raises \<open>RetryError\<close>, which wraps the error of
  the third attempt, to its caller. The delay slept after the failed attempt \<open>k\<close> is
  \<open>max(4, min(2 ** (k - 1), 10))\<close>, the doubling sequence 1, 2, 4, 8, ... kept between
  the floor 4 and the cap 10: the two delays slept between the three attempts are 4 and
  4, and the delays never decrease and never exceed 10.
\<close>

theorem transient_failure_three_attempts:
  assumes "\<forall>i<3. \<exists>e. clean_text_chunk_undecorated (service w (service_calls w + i)) chunk = Inl e"
  shows "\<exists>e w'. clean_text_chunk chunk number n w = (Inl (RetryError e), w')
      \<and> clean_text_chunk_undecorated (service w (service_calls w + 2)) chunk = Inl e
      \<and> service_calls w' = service_calls w + 3
      \<and> waits w' = waits w @ [4, 4]
      \<and> (\<forall>k. wait_exponential 1 4 10 k \<le> wait_exponential 1 4 10 (Suc k)
              \<and> wait_exponential 1 4 10 k \<le> 10
              \<and> wait_exponential 1 4 10 k = max 4 (min (2 ^ (k - 1)) 10))"
proof -
  from assms obtain e1 e2 e3 where
    e1: "clean_text_chunk_undecorated (service w (service_calls w)) chunk = Inl e1" and
    e2: "clean_text_chunk_undecorated (service w (service_calls w + 1)) chunk = Inl e2" and
    e3: "clean_text_chunk_undecorated (service w (service_calls w + 2)) chunk = Inl e3"
    using assms [rule_format, of 0] assms [rule_format, of 1] assms [rule_format, of 2]
    by auto
  from retry_from_again [OF e1, of 1] obtain w1 where
    s1: "retry_from 1 chunk w = retry_from 2 chunk w1" and
    w1: "service w1 = service w" "service_calls w1 = Suc (service_calls w)"
      "waits w1 = waits w @ [wait_exponential 1 4 10 1]"
    by (auto simp: numeral_2_eq_2)
  from e2 w1 have e2': "clean_text_chunk_undecorated (service w1 (service_calls w1)) chunk = Inl e2"
    by simp
  from retry_from_again [OF e2', of 2] obtain w2 where
    s2: "retry_from 2 chunk w1 = retry_from 3 chunk w2" and
    w2: "service w2 = service w1" "service_calls w2 = Suc (service_calls w1)"
      "waits w2 = waits w1 @ [wait_exponential 1 4 10 2]"
    by (auto simp: numeral_3_eq_3 numeral_2_eq_2)
  from e3 w1 w2 have e3': "clean_text_chunk_undecorated (service w2 (service_calls w2)) chunk = Inl e3"
    by simp
  from retry_from_gives_up [OF e3', of 3] obtain w3 where
    s3: "retry_from 3 chunk w2 = (Inl (RetryError e3), w3)" and
    w3: "service_calls w3 = Suc (service_calls w2)" "waits w3 = waits w2"
    by auto
  have "clean_text_chunk chunk number n w = (Inl (RetryError e3), w3)"
    using s1 s2 s3 by (simp add: clean_text_chunk_def)
  moreover have "service_calls w3 = service_calls w + 3"
    using w1 w2 w3 by simp
  moreover have "waits w3 = waits w @ [4, 4]"
    using w1 w2 w3 by (simp add: wait_exponential_1_4_10)
  ultimately show ?thesis
    using e3 wait_exponential_mono wait_exponential_bounds wait_exponential_formula by blast
qed

theorem transient_failure_three_attempts_witness:
  "fst (clean_text_chunk ''Page 7'' 1 1 (fresh_world (\<lambda>k. RaisesException ''timed out''))) =
     Inl (RetryError (OtherException ''timed out''))
   \<and> service_calls (snd (clean_text_chunk ''Page 7'' 1 1
          (fresh_world (\<lambda>k. RaisesException ''timed out'')))) = 3
   \<and> waits (snd (clean_text_chunk ''Page 7'' 1 1
          (fresh_world (\<lambda>k. RaisesException ''timed out'')))) = [4, 4]"
  using transient_failure_three_attempts
    [of "fresh_world (\<lambda>k. RaisesException ''timed out'')" "''Page 7''" 1 1]
  by (auto simp: fresh_world_def clean_text_chunk_undecorated_def)

section \<open>Properties of the rate limiter\<close>

lemma gated_starts_append:
  "gated_starts m p calls (xs @ ys) =
     (case gated_starts m p calls xs of
        Inl e \<Rightarrow> Inl e
      | Inr (calls1, starts1) \<Rightarrow>
          (case gated_starts m p calls1 ys of
             Inl e \<Rightarrow> Inl e
           | Inr (calls2, starts2) \<Rightarrow> Inr (calls2, starts1 @ starts2)))"
  by (induction xs arbitrary: calls) (auto split: sum.splits prod.splits)

lemma gated_starts_same_instant:
  assumes "0 < p" "int (k + n) \<le> m"
  shows "gated_starts m p (replicate k t) (replicate n t) = Inr (replicate (k + n) t, replicate n t)"
  using assms
proof (induction n arbitrary: k)
  case 0
  then show ?case by simp
next
  case (Suc n)
  from Suc.prems have w: "wrapper m p t (replicate k t) = (replicate (Suc k) t, Inr t)"
    by (simp add: wrapper_def replicate_append_same)
  from Suc.prems have "gated_starts m p (replicate (Suc k) t) (replicate n t) =
      Inr (replicate (Suc k + n) t, replicate n t)"
    by (intro Suc.IH) auto
  with w show ?case by simp
qed

lemma gated_starts_burst:
  assumes "0 < p" "1 \<le> m"
  shows "gated_starts (int m) p [] (replicate m 0 @ [0] @ replicate m p) =
           Inr (replicate m p, replicate m 0 @ [p] @ replicate m p)"
proof -
  have a: "gated_starts (int m) p [] (replicate m 0) = Inr (replicate m 0, replicate m 0)"
    using gated_starts_same_instant [of p 0 m "int m" 0] assms by simp
  obtain m' where m': "m = Suc m'" using assms(2) by (cases m) auto
  have b: "wrapper (int m) p 0 (replicate m 0) = (replicate m 0 @ [0], Inr p)"
    using assms by (simp add: wrapper_def m')
  have c: "wrapper (int m) p p (replicate m 0 @ [0]) = ([p], Inr p)"
    using assms by (simp add: wrapper_def)
  have d: "gated_starts (int m) p (replicate 1 p) (replicate m' p) =
      Inr (replicate (1 + m') p, replicate m' p)"
    using assms m' by (intro gated_starts_same_instant) auto
  have e: "gated_starts (int m) p (replicate m 0 @ [0]) (replicate m p) =
      Inr (replicate m p, replicate m p)"
    using c d by (simp add: m')
  have f: "gated_starts (int m) p (replicate m 0) ([0] @ replicate m p) =
      Inr (replicate m p, [p] @ replicate m p)"
    using b e by simp
  show ?thesis
    using a f by (simp add: gated_starts_append [of _ _ _ "replicate m 0"])
qed

lemma starts_in_window_burst:
  assumes "0 < p"
  shows "starts_in_window p p (replicate m 0 @ [p] @ replicate m p) = Suc m"
  using assms by (simp add: starts_in_window_def)

lemma lock_order_same: "lock_order (replicate n t) (replicate n t)"
proof (induction n)
  case 0
  show ?case by simp
next
  case (Suc n)
  then show ?case by (cases n) simp_all
qed

lemma lock_order_burst_tail:
  "a \<le> b \<Longrightarrow> lock_order (a # replicate n b) (b # replicate n b)"
  using lock_order_same [of n b] by (cases n) simp_all

lemma lock_order_burst:
  "a \<le> b \<Longrightarrow>
     lock_order (replicate m a @ [a] @ replicate n b) (replicate m a @ [b] @ replicate n b)"
proof (induction m)
  case 0
  then show ?case using lock_order_burst_tail [of a b n] by simp
next
  case (Suc m)
  then show ?case by (cases m) simp_all
qed

text \<open>
  Claim C7 does not hold of the code. A call that finds \<open>max_calls\<close> timestamps in
  the window sleeps until the oldest one leaves it, but the timestamp it then records is
  \<open>now\<close>, read before the sleep, not the time at which the call starts. The start of a
  call that slept is therefore missing from the window of the calls after it. With
  \<open>max_calls = 2\<close> and \<open>period = 10\<close>, the calls that take the lock at the times 0,
  1, 2, 12 and 13 start at 0, 1, 10, 12 and 13: three starts in the window that ends at
  13. With the program's own limiter, \<open>RateLimiter(max_calls=999, period=60)\<close>, 1000
  calls that take the lock at time 0 and 999 that take it at time 60 give 1000 starts at
  time 60.
\<close>

theorem rate_limiter_lets_extra_call_start:
  "gated_starts 2 10 [] [0, 1, 2, 12, 13] = Inr ([12, 13], [0, 1, 10, 12, 13])
   \<and> lock_order [0, 1, 2, 12, 13] [0, 1, 10, 12, 13]
   \<and> starts_in_window 10 13 [0, 1, 10, 12, 13] = 3
   \<and> gated_starts 999 60 [] (replicate 999 0 @ [0] @ replicate 999 60) =
       Inr (replicate 999 60, replicate 999 0 @ [60] @ replicate 999 60)
   \<and> lock_order (replicate 999 0 @ [0] @ replicate 999 60)
       (replicate 999 0 @ [60] @ replicate 999 60)
   \<and> starts_in_window 60 60 (replicate 999 0 @ [60] @ replicate 999 60) = 1000"
proof -
  have "gated_starts 2 10 [] [0, 1, 2, 12, 13] = Inr ([12, 13], [0, 1, 10, 12, 13])"
    by (simp add: wrapper_def)
  moreover have "lock_order [0, 1, 2, 12, 13] [0, 1, 10, 12, 13]"
    by simp
  moreover have "starts_in_window 10 13 [0, 1, 10, 12, 13] = 3"
    by (simp add: starts_in_window_def)
  moreover have "gated_starts 999 60 [] (replicate 999 0 @ [0] @ replicate 999 60) =
       Inr (replicate 999 60, replicate 999 0 @ [60] @ replicate 999 60)"
    using gated_starts_burst [of 60 999] by simp
  moreover have "lock_order (replicate 999 0 @ [0] @ replicate 999 60)
       (replicate 999 0 @ [60] @ replicate 999 60)"
    by (rule lock_order_burst) simp
  moreover have "starts_in_window 60 60 (replicate 999 0 @ [60] @ replicate 999 60) = 1000"
    using starts_in_window_burst [of 60 999] by simp
  ultimately show ?thesis by blast
qed

section \<open>Properties of the per-document processor\<close>

lemma read_text_id: "CHR 0x0D \<notin> set s \<Longrightarrow> read_text s = s"
  by (induction s) auto

lemma read_text_no_cr: "CHR 0x0D \<notin> set (read_text s)"
  by (induction s rule: read_text.induct) (auto split: list.splits)

lemma try_encodings_no_cr:
  "try_encodings file_path src encodings = Inr text \<Longrightarrow> CHR 0x0D \<notin> set text"
  by (induction encodings) (auto simp: read_text_no_cr split: open_read.splits)

lemma read_file_no_cr:
  "read_file_with_fallback_encoding file_path src = Inr text \<Longrightarrow> CHR 0x0D \<notin> set text"
  unfolding read_file_with_fallback_encoding_def by (rule try_encodings_no_cr)

lemma split_nl_chars_all: "\<forall>l\<in>set (split_nl s). set l \<subseteq> set s"
proof (induction s)
  case Nil
  show ?case by simp
next
  case (Cons c cs)
  show ?case
  proof (cases "c = CHR 0x0A")
    case True
    with Cons show ?thesis by auto
  next
    case False
    obtain l ls where sp: "split_nl cs = l # ls"
      by (cases "split_nl cs") auto
    with Cons have "set l \<subseteq> set cs" "\<forall>m\<in>set ls. set m \<subseteq> set cs" by auto
    with False sp show ?thesis by auto
  qed
qed

lemma split_nl_chars: "l \<in> set (split_nl s) \<Longrightarrow> set l \<subseteq> set s"
  using split_nl_chars_all by blast

lemma join_nl_chars: "set (join_nl g) \<subseteq> (\<Union>l\<in>set g. set l) \<union> {CHR 0x0A}"
  by (induction g rule: join_nl.induct) auto

lemma chunk_text_chars:
  assumes "chunk \<in> set (chunk_text T S)"
  shows "set chunk \<subseteq> set T \<union> {CHR 0x0A}"
proof -
  from assms obtain g where g: "g \<in> set (line_groups T S)" and c: "chunk = join_nl g"
    by (auto simp: chunk_text_groups)
  have "set l \<subseteq> set T" if "l \<in> set g" for l
  proof -
    from that g have "l \<in> set (concat (line_groups T S))" by auto
    then show ?thesis by (simp add: concat_line_groups split_nl_chars)
  qed
  with join_nl_chars [of g] c show ?thesis by auto
qed

lemma chunk_text_no_cr:
  "CHR 0x0D \<notin> set T \<Longrightarrow> chunk \<in> set (chunk_text T S) \<Longrightarrow> CHR 0x0D \<notin> set chunk"
  using chunk_text_chars [of chunk T S] by auto

lemma write_chunk_file_ok:
  "chunk_write_error w (chunk_writes w) = None \<Longrightarrow>
     write_chunk_file i content w =
       (None, w\<lparr>chunk_writes := Suc (chunk_writes w),
                 chunk_files := (chunk_files w)(i \<mapsto> content)\<rparr>)"
  by (simp add: write_chunk_file_def)

lemma persist_chunks_ok:
  assumes "\<forall>k. chunk_write_error w k = None"
  shows "\<exists>w1. persist_chunks (enumerate k cs) w = (None, w1)
     \<and> (\<forall>j. chunk_files w1 j =
           (if k \<le> j \<and> j < k + length cs then Some (cs ! (j - k)) else chunk_files w j))
     \<and> service w1 = service w \<and> chunk_write_error w1 = chunk_write_error w
     \<and> output_write_error w1 = output_write_error w \<and> clock w1 = clock w"
  using assms
proof (induction cs arbitrary: k w)
  case Nil
  then show ?case by auto
next
  case (Cons c cs)
  let ?w' = "w\<lparr>chunk_writes := Suc (chunk_writes w), chunk_files := (chunk_files w)(k \<mapsto> c)\<rparr>"
  have wr: "write_chunk_file k c w = (None, ?w')"
    using Cons.prems by (simp add: write_chunk_file_ok)
  have "\<forall>j. chunk_write_error ?w' j = None" using Cons.prems by simp
  from Cons.IH [OF this, of "Suc k"] obtain w1 where
    p: "persist_chunks (enumerate (Suc k) cs) ?w' = (None, w1)" and
    f: "\<forall>j. chunk_files w1 j =
           (if Suc k \<le> j \<and> j < Suc k + length cs then Some (cs ! (j - Suc k))
            else chunk_files ?w' j)" and
    r: "service w1 = service ?w'" "chunk_write_error w1 = chunk_write_error ?w'"
       "output_write_error w1 = output_write_error ?w'" "clock w1 = clock ?w'"
    by blast
  have "persist_chunks (enumerate k (c # cs)) w = (None, w1)"
    using wr p by simp
  moreover have "\<forall>j. chunk_files w1 j =
      (if k \<le> j \<and> j < k + length (c # cs) then Some ((c # cs) ! (j - k)) else chunk_files w j)"
    using f by (auto simp: nth_Cons')
  ultimately show ?case using r by auto
qed

lemma clean_text_chunk_frame:
  "\<exists>r w'. clean_text_chunk chunk number n w = (r, w')
     \<and> chunk_files w' = chunk_files w \<and> output_write_error w' = output_write_error w
     \<and> service w' = service w \<and> chunk_write_error w' = chunk_write_error w
     \<and> chunk_writes w' = chunk_writes w"
proof -
  have "\<exists>r w'. retry_from k chunk w = (r, w')
     \<and> chunk_files w' = chunk_files w \<and> output_write_error w' = output_write_error w
     \<and> service w' = service w \<and> chunk_write_error w' = chunk_write_error w
     \<and> chunk_writes w' = chunk_writes w" for k
  proof (induction k chunk w rule: retry_from.induct)
    case (1 k chunk w)
    show ?case
    proof (cases "clean_text_chunk_undecorated (service w (service_calls w)) chunk")
      case (Inr r)
      from retry_from_returns [OF Inr, of k] show ?thesis by auto
    next
      case (Inl e)
      show ?thesis
      proof (cases "k < 3")
        case False
        then have "3 \<le> k" by simp
        from retry_from_gives_up [OF Inl this] show ?thesis by auto
      next
        case True
        obtain calls' start where rl: "rate_limited chunk w =
           (clean_text_chunk_undecorated (service w (service_calls w)) chunk,
            w\<lparr>limiter_calls := calls', clock := start, service_calls := Suc (service_calls w)\<rparr>)"
          using rate_limited_outcome by blast
        let ?w1 = "w\<lparr>limiter_calls := calls', clock := start,
                      service_calls := Suc (service_calls w)\<rparr>"
        let ?w' = "sleep (wait_exponential 1 4 10 k)
                     (?w1\<lparr>waits := waits ?w1 @ [wait_exponential 1 4 10 k]\<rparr>)"
        have step: "retry_from k chunk w = retry_from (Suc k) chunk ?w'"
          using Inl True rl by (simp add: retry_from.simps [of k chunk w] stop_after_attempt_def)
        have "\<exists>r w'. retry_from (Suc k) chunk ?w' = (r, w')
           \<and> chunk_files w' = chunk_files ?w' \<and> output_write_error w' = output_write_error ?w'
           \<and> service w' = service ?w' \<and> chunk_write_error w' = chunk_write_error ?w'
           \<and> chunk_writes w' = chunk_writes ?w'"
          using Inl True rl by (intro "1.IH") (auto simp: stop_after_attempt_def)
        with step show ?thesis by (auto simp: sleep_def)
      qed
    qed
  qed
  then show ?thesis by (simp add: clean_text_chunk_def)
qed

lemma process_chunk_frame:
  "process_chunk fuel number n (ld, c, w) = Some (ld', c', w') \<Longrightarrow>
     total_chunks ld' = total_chunks ld
     \<and> map chunk_number (chunks_info ld') = map chunk_number (chunks_info ld) @ [number]"
proof (induction fuel arbitrary: ld c w)
  case 0
  then show ?case by simp
next
  case (Suc fuel)
  show ?case
  proof (cases "chunk_files w number")
    case None
    with Suc.prems have "process_chunk fuel number n
        (ld\<lparr>errors := errors ld @ [ChunkError number (OSError ''No such file or directory'')]\<rparr>,
         c, sleep 5 w) = Some (ld', c', w')"
      by simp
    from Suc.IH [OF this] show ?thesis by simp
  next
    case (Some content)
    obtain r w1 where cl: "clean_text_chunk (read_text content) number n w = (r, w1)"
      by (cases "clean_text_chunk (read_text content) number n w") auto
    show ?thesis
    proof (cases r)
      case (Inl e)
      with Suc.prems Some cl have "process_chunk fuel number n
        (ld\<lparr>errors := errors ld @ [ChunkError number e]\<rparr>, c, sleep 5 w1) = Some (ld', c', w')"
        by simp
      from Suc.IH [OF this] show ?thesis by simp
    next
      case (Inr p)
      obtain cleaned_chunk was_cleaned where p: "p = (cleaned_chunk, was_cleaned)"
        by (cases p) auto
      obtain e w2 where wr: "write_chunk_file number (cleaned_chunk @ [CHR 0x0A, CHR 0x0A]) w1 = (e, w2)"
        by (cases "write_chunk_file number (cleaned_chunk @ [CHR 0x0A, CHR 0x0A]) w1") auto
      show ?thesis
      proof (cases e)
        case None
        with Suc.prems Some cl Inr p wr show ?thesis by auto
      next
        case (Some err)
        with Suc.prems \<open>chunk_files w number = Some content\<close> cl Inr p wr
        have "process_chunk fuel number n
          (ld\<lparr>errors := errors ld @ [ChunkError number err]\<rparr>,
           (if was_cleaned then c + 1 else c), sleep 5 w2) = Some (ld', c', w')"
          by simp
        from Suc.IH [OF this] show ?thesis by simp
      qed
    qed
  qed
qed

lemma process_chunks_frame:
  "process_chunks fuel is n (ld, c, w) = Some (ld', c', w') \<Longrightarrow>
     total_chunks ld' = total_chunks ld
     \<and> map chunk_number (chunks_info ld') = map chunk_number (chunks_info ld) @ map Suc is"
proof (induction "is" arbitrary: ld c w)
  case Nil
  then show ?case by simp
next
  case (Cons i "is")
  from Cons.prems obtain ld1 c1 w1 where
    1: "process_chunk fuel (i + 1) n (ld, c, w) = Some (ld1, c1, w1)" and
    2: "process_chunks fuel is n (ld1, c1, w1) = Some (ld', c', w')"
    by (auto split: option.splits)
  from process_chunk_frame [OF 1] Cons.IH [OF 2] show ?case by simp
qed

lemma process_chunk_rejected:
  assumes rej: "\<forall>k. \<exists>msg. service w k = RaisesAPIError msg \<and> sublist ''content filtering'' (lower msg)"
    and cw: "\<forall>k. chunk_write_error w k = None"
    and cf: "chunk_files w number = Some chunk"
    and cr: "CHR 0x0D \<notin> set chunk"
  shows "\<exists>ld' w'. process_chunk (Suc fuel) number n (ld, c, w) = Some (ld', c, w')
      \<and> service w' = service w \<and> chunk_write_error w' = chunk_write_error w
      \<and> output_write_error w' = output_write_error w
      \<and> chunk_files w' = (chunk_files w)(number \<mapsto> chunk @ [CHR 0x0A, CHR 0x0A])"
proof -
  from rej obtain msg where "service w (service_calls w) = RaisesAPIError msg"
    and "sublist ''content filtering'' (lower msg)"
    by blast
  then have "clean_text_chunk_undecorated (service w (service_calls w)) chunk = Inr (chunk, False)"
    by (simp add: clean_text_chunk_undecorated_def)
  from retry_from_returns [OF this, of 1] obtain w1 where
    cl: "clean_text_chunk chunk number n w = (Inr (chunk, False), w1)" and
    fr: "service w1 = service w" "chunk_files w1 = chunk_files w"
      "output_write_error w1 = output_write_error w"
      "chunk_write_error w1 = chunk_write_error w"
    by (auto simp: clean_text_chunk_def)
  from cw fr have "chunk_write_error w1 (chunk_writes w1) = None" by simp
  then have wr: "write_chunk_file number (chunk @ [CHR 0x0A, CHR 0x0A]) w1 =
      (None, w1\<lparr>chunk_writes := Suc (chunk_writes w1),
                  chunk_files := (chunk_files w1)(number \<mapsto> chunk @ [CHR 0x0A, CHR 0x0A])\<rparr>)"
    by (rule write_chunk_file_ok)
  from cr have "read_text chunk = chunk" by (rule read_text_id)
  with cf cl wr fr show ?thesis by simp
qed

lemma process_chunks_rejected:
  assumes "\<forall>k. \<exists>msg. service w k = RaisesAPIError msg \<and> sublist ''content filtering'' (lower msg)"
    and "\<forall>k. chunk_write_error w k = None"
    and "distinct is"
    and "\<forall>i\<in>set is. chunk_files w (Suc i) = Some (f i) \<and> CHR 0x0D \<notin> set (f i)"
  shows "\<exists>ld' w'. process_chunks (Suc fuel) is n (ld, c, w) = Some (ld', c, w')
      \<and> output_write_error w' = output_write_error w
      \<and> (\<forall>i\<in>set is. chunk_files w' (Suc i) = Some (f i @ [CHR 0x0A, CHR 0x0A]))
      \<and> (\<forall>j. j \<notin> Suc ` set is \<longrightarrow> chunk_files w' j = chunk_files w j)"
  using assms
proof (induction "is" arbitrary: ld w)
  case Nil
  then show ?case by simp
next
  case (Cons i "is")
  from Cons.prems(4) have cf: "chunk_files w (Suc i) = Some (f i)"
    and cr: "CHR 0x0D \<notin> set (f i)" by simp_all
  from process_chunk_rejected [OF Cons.prems(1,2) cf cr, of fuel n ld c] obtain ld1 w1 where
    1: "process_chunk (Suc fuel) (Suc i) n (ld, c, w) = Some (ld1, c, w1)" and
    s1: "service w1 = service w" and e1: "chunk_write_error w1 = chunk_write_error w" and
    o1: "output_write_error w1 = output_write_error w" and
    f1: "chunk_files w1 = (chunk_files w)(Suc i \<mapsto> f i @ [CHR 0x0A, CHR 0x0A])"
    by blast
  from Cons.prems(3) have d: "distinct is" and ni: "i \<notin> set is" by simp_all
  have r1: "\<forall>k. \<exists>msg. service w1 k = RaisesAPIError msg \<and> sublist ''content filtering'' (lower msg)"
    using Cons.prems(1) s1 by simp
  have c1: "\<forall>k. chunk_write_error w1 k = None"
    using Cons.prems(2) e1 by simp
  have files1: "\<forall>j\<in>set is. chunk_files w1 (Suc j) = Some (f j) \<and> CHR 0x0D \<notin> set (f j)"
    using Cons.prems(4) f1 ni by auto
  from Cons.IH [OF r1 c1 d files1, of ld1] obtain ld' w' where
    2: "process_chunks (Suc fuel) is n (ld1, c, w1) = Some (ld', c, w')" and
    o2: "output_write_error w' = output_write_error w1" and
    f2: "\<forall>i\<in>set is. chunk_files w' (Suc i) = Some (f i @ [CHR 0x0A, CHR 0x0A])" and
    g2: "\<forall>j. j \<notin> Suc ` set is \<longrightarrow> chunk_files w' j = chunk_files w1 j"
    by blast
  have "process_chunks (Suc fuel) (i # is) n (ld, c, w) = Some (ld', c, w')"
    using 1 2 by simp
  moreover have "chunk_files w' (Suc i) = Some (f i @ [CHR 0x0A, CHR 0x0A])"
    using g2 f1 ni by auto
  moreover have "\<forall>j. j \<notin> Suc ` set (i # is) \<longrightarrow> chunk_files w' j = chunk_files w j"
    using g2 f1 by auto
  ultimately show ?case
    using o1 o2 f2 by auto
qed

lemma combine_chunks_all:
  "\<forall>i\<in>set is. files (Suc i) = Some (g i) \<Longrightarrow>
     combine_chunks files (map Suc is) acc = acc @ concat (map (\<lambda>i. read_text (g i)) is)"
  by (induction "is" arbitrary: acc) auto

lemma concat_map_nth: "concat (map (\<lambda>i. g (xs ! i)) [0..<length xs]) = concat (map g xs)"
proof -
  have "map (\<lambda>i. g (xs ! i)) [0..<length xs] = map g (map (\<lambda>i. xs ! i) [0..<length xs])"
    by simp
  then show ?thesis by (simp only: map_nth)
qed

lemma length_join_nl_less:
  "cs \<noteq> [] \<Longrightarrow> length (join_nl cs) < length (concat (map (\<lambda>c. c @ [x, y]) cs))"
  by (induction cs rule: join_nl.induct) auto

lemma length_concat_less:
  "cs \<noteq> [] \<Longrightarrow> length (concat cs) < length (concat (map (\<lambda>c. c @ [x, y]) cs))"
proof (induction cs)
  case Nil
  then show ?case by simp
next
  case (Cons c cs)
  then show ?case by (cases "cs = []") auto
qed

lemma separated_eq_join_iff:
  "concat (map (\<lambda>c. c @ [x, y]) cs) = join_nl cs \<longleftrightarrow> cs = []"
  using length_join_nl_less [of cs x y] by (cases "cs = []") auto

lemma separated_eq_concat_iff:
  "concat (map (\<lambda>c. c @ [x, y]) cs) = concat cs \<longleftrightarrow> cs = []"
  using length_concat_less [of cs x y] by (cases "cs = []") auto

lemma process_text_file_after_read:
  assumes rd: "read_file_with_fallback_encoding file_path src = Inr text"
    and run: "process_text_file fuel file_path base_name src w = Some (r, w')"
  shows "\<exists>ld. log_file w' = Some ld
      \<and> total_chunks ld = Some (length (chunk_text text 200))
      \<and> (status ld = ''completed'' \<or> status ld = ''failed'')
      \<and> (r = Inl (UnboundLocalError ''cleaned_chunks'') \<and> status ld = ''failed''
           \<and> chunks_info ld = []
          \<or> (\<exists>c. r = Inr (c, length (chunk_text text 200)))
           \<and> map chunk_number (chunks_info ld) = [1..<Suc (length (chunk_text text 200))])"
proof -
  let ?cs = "chunk_text text 200"
  let ?n = "length ?cs"
  let ?ld1 = "\<lparr>file_name = base_name, start_time = clock w, status = ''processing'',
                errors = [], chunks_info = [], total_chunks = Some ?n, end_time = None,
                processing_time = None, cleaned_chunks = None\<rparr>"
  obtain e w1 where ps: "persist_chunks (enumerate 1 ?cs) w = (e, w1)"
    by (cases "persist_chunks (enumerate 1 ?cs) w") auto
  show ?thesis
  proof (cases e)
    case (Some err)
    with rd run ps show ?thesis
      by (auto simp: process_text_file_def finalize_def Let_def)
  next
    case None
    with rd run ps obtain ld2 c w2 where
      pc: "process_chunks fuel [0..<?n] ?n (?ld1, 0, w1) = Some (ld2, c, w2)"
      by (auto simp: process_text_file_def Let_def split: option.splits)
    from process_chunks_frame [OF pc] have
      t2: "total_chunks ld2 = Some ?n" and
      n2: "map chunk_number (chunks_info ld2) = [1..<Suc ?n]"
      by (simp_all add: map_Suc_upt)
    show ?thesis
    proof (cases "output_write_error w2")
      case None
      with rd run ps \<open>e = None\<close> pc t2 n2 show ?thesis
        by (auto simp: process_text_file_def finalize_def Let_def)
    next
      case (Some e2)
      with rd run ps \<open>e = None\<close> pc t2 n2 show ?thesis
        by (auto simp: process_text_file_def finalize_def Let_def)
    qed
  qed
qed

text \<open>The definitions that evaluate a run of the processor on a concrete input.\<close>

lemmas run_simps = process_text_file_def read_file_with_fallback_encoding_def chunk_text_def
  unfiltered_chunks_def strip_def isspace_def enumerate_eq_zip clean_text_chunk_def
  retry_from.simps rate_limited_def wrapper_def clean_text_chunk_undecorated_def
  write_chunk_file_def finalize_def fresh_world_def Let_def sleep_def stop_after_attempt_def
  wait_exponential_def

text \<open>
  Claim C5. Every chunk that \<open>chunk_text\<close> emits is non-empty after trimming. The
  retained chunks are numbered by their position, from 1 and without a gap
  (\<open>enumerate(chunks, 1)\<close>): when the chunk files can be written, chunk file \<open>i + 1\<close>
  holds the retained chunk at position \<open>i\<close>, and the per-chunk records of the log of
  every run that read the text and returned its pair carry the numbers 1 to n in this
  order, n being the returned total. The empty document yields no chunk.
\<close>

theorem chunks_nonempty_and_numbered:
  "(\<forall>chunk\<in>set (chunk_text text chunk_size). strip chunk \<noteq> [])
   \<and> (\<forall>i<length (chunk_text text chunk_size).
         enumerate 1 (chunk_text text chunk_size) ! i = (Suc i, chunk_text text chunk_size ! i))
   \<and> ((\<forall>k. chunk_write_error w k = None) \<longrightarrow>
         (\<exists>w1. persist_chunks (enumerate 1 (chunk_text text chunk_size)) w = (None, w1)
            \<and> (\<forall>i<length (chunk_text text chunk_size).
                  chunk_files w1 (Suc i) = Some (chunk_text text chunk_size ! i))))
   \<and> (\<forall>file_path src fuel base_name c t w'.
         read_file_with_fallback_encoding file_path src = Inr text
         \<and> process_text_file fuel file_path base_name src w = Some (Inr (c, t), w') \<longrightarrow>
         (\<exists>ld. log_file w' = Some ld \<and> t = length (chunk_text text 200)
            \<and> map chunk_number (chunks_info ld) = [1..<Suc (length (chunk_text text 200))]))
   \<and> chunk_text [] chunk_size = []"
proof (intro conjI allI impI ballI)
  fix chunk
  assume "chunk \<in> set (chunk_text text chunk_size)"
  then show "strip chunk \<noteq> []" by (simp add: chunk_text_def)
next
  fix i
  assume "i < length (chunk_text text chunk_size)"
  then show "enumerate 1 (chunk_text text chunk_size) ! i = (Suc i, chunk_text text chunk_size ! i)"
    by (simp add: nth_enumerate_eq)
next
  assume "\<forall>k. chunk_write_error w k = None"
  from persist_chunks_ok [OF this, of 1 "chunk_text text chunk_size"]
  show "\<exists>w1. persist_chunks (enumerate 1 (chunk_text text chunk_size)) w = (None, w1)
      \<and> (\<forall>i<length (chunk_text text chunk_size).
            chunk_files w1 (Suc i) = Some (chunk_text text chunk_size ! i))"
    by auto
next
  fix file_path src fuel base_name c t w'
  assume "read_file_with_fallback_encoding file_path src = Inr text
         \<and> process_text_file fuel file_path base_name src w = Some (Inr (c, t), w')"
  then have "read_file_with_fallback_encoding file_path src = Inr text"
    and "process_text_file fuel file_path base_name src w = Some (Inr (c, t), w')"
    by simp_all
  from process_text_file_after_read [OF this]
  show "\<exists>ld. log_file w' = Some ld \<and> t = length (chunk_text text 200)
      \<and> map chunk_number (chunks_info ld) = [1..<Suc (length (chunk_text text 200))]"
    by auto
next
  show "chunk_text [] chunk_size = []"
    by (simp add: chunk_text_def unfiltered_chunks_def strip_def)
qed

theorem chunks_nonempty_and_numbered_witness:
  "unfiltered_chunks (lines_of 150 100 150) 200 =
     [replicate 150 (CHR ''a''), replicate 100 (CHR '' ''), replicate 150 (CHR ''b'')]
   \<and> chunk_text (lines_of 150 100 150) 200 =
       [replicate 150 (CHR ''a''), replicate 150 (CHR ''b'')]
   \<and> enumerate 1 (chunk_text (lines_of 150 100 150) 200) =
       [(1, replicate 150 (CHR ''a'')), (2, replicate 150 (CHR ''b''))]
   \<and> fst (persist_chunks (enumerate 1 (chunk_text (lines_of 150 100 150) 200))
            (fresh_world (\<lambda>k. Response ''done''))) = None
   \<and> map (chunk_files (snd (persist_chunks (enumerate 1 (chunk_text (lines_of 150 100 150) 200))
            (fresh_world (\<lambda>k. Response ''done''))))) [0, 1, 2, 3] =
       [None, Some (replicate 150 (CHR ''a'')), Some (replicate 150 (CHR ''b'')), None]
   \<and> map_option (\<lambda>(r, w'). (r, map_option (map chunk_number \<circ> chunks_info) (log_file w')))
        (process_text_file 1 ''book.txt'' ''book''
           (\<lambda>encoding. Content (lines_of 150 100 150))
           (fresh_world (\<lambda>k. Response ''done''))) =
       Some (Inr (2, 2), Some [1, 2])"
proof -
  have a: "unfiltered_chunks (lines_of 150 100 150) 200 =
     [replicate 150 (CHR ''a''), replicate 100 (CHR '' ''), replicate 150 (CHR ''b'')]"
    by code_simp
  have b: "chunk_text (lines_of 150 100 150) 200 =
       [replicate 150 (CHR ''a''), replicate 150 (CHR ''b'')]"
    by code_simp
  have c: "enumerate 1 (chunk_text (lines_of 150 100 150) 200) =
       [(1, replicate 150 (CHR ''a'')), (2, replicate 150 (CHR ''b''))]"
    by code_simp
  have d: "fst (persist_chunks (enumerate 1 (chunk_text (lines_of 150 100 150) 200))
            (fresh_world (\<lambda>k. Response ''done''))) = None"
    by code_simp
  have e: "map (chunk_files (snd (persist_chunks
            (enumerate 1 (chunk_text (lines_of 150 100 150) 200))
            (fresh_world (\<lambda>k. Response ''done''))))) [0, 1, 2, 3] =
       [None, Some (replicate 150 (CHR ''a'')), Some (replicate 150 (CHR ''b'')), None]"
    by code_simp
  have f: "map_option (\<lambda>(r, w'). (r, map_option (map chunk_number \<circ> chunks_info) (log_file w')))
        (process_text_file 1 ''book.txt'' ''book''
           (\<lambda>encoding. Content (lines_of 150 100 150))
           (fresh_world (\<lambda>k. Response ''done''))) =
       Some (Inr (2, 2), Some [1, 2])"
    by code_simp
  show ?thesis
    using chunks_nonempty_and_numbered
      [of "lines_of 150 100 150" 200 "fresh_world (\<lambda>k. Response ''done'')"]
      a b c d e f
    by blast
qed

text \<open>
  Claim C3, as the code has it. Each chunk file is overwritten with the result followed
  by two newlines, and the cleaned output is the concatenation of the chunk files. For
  the one-chunk document \<open>Hello\<close> whose call is rejected, the output is \<open>Hello\<close> followed
  by two newlines: it is not the rejoined chunks, whether they are joined by a newline or
  by nothing.
\<close>

theorem all_rejected_output_has_separators:
  "map_option (\<lambda>(r, w'). output_file w')
     (process_text_file 1 ''a.txt'' ''a'' (\<lambda>encoding. Content ''Hello'')
        (fresh_world (\<lambda>k. RaisesAPIError ''content filtering''))) =
     Some (Some ''Hello\<newline>\<newline>'')
   \<and> join_nl (chunk_text ''Hello'' 200) = ''Hello''
   \<and> concat (chunk_text ''Hello'' 200) = ''Hello''
   \<and> ''Hello\<newline>\<newline>'' \<noteq> join_nl (chunk_text ''Hello'' 200)
   \<and> ''Hello\<newline>\<newline>'' \<noteq> concat (chunk_text ''Hello'' 200)"
proof -
  have h: "sublist ''content filtering'' (lower ''content filtering'')"
    by code_simp
  show ?thesis by (simp add: run_simps h)
qed

text \<open>
  Claim C3, amended. For every document whose text was read, whose service calls all
  return a content-policy rejection and whose chunk files and cleaned output can be
  written, \<open>process_text_file\<close> returns \<open>(0, n)\<close> for its \<open>n\<close> chunks (one pass per
  chunk is enough), the cleaned output is the concatenation, in index order, of every
  original chunk followed by two newlines, and the log has status \<open>completed\<close> and
  \<open>cleaned_chunks = 0\<close>. The output is the chunks rejoined by a newline, or by nothing,
  only when the document has no chunk.
\<close>

theorem all_rejected_output:
  assumes rej: "\<forall>k. \<exists>msg. service w k = RaisesAPIError msg \<and> sublist ''content filtering'' (lower msg)"
    and rd: "read_file_with_fallback_encoding file_path src = Inr text"
    and cw: "\<forall>k. chunk_write_error w k = None"
    and ow: "output_write_error w = None"
  shows "\<exists>w' ld. process_text_file (Suc fuel) file_path base_name src w =
           Some (Inr (0, length (chunk_text text 200)), w')
     \<and> output_file w' =
         Some (concat (map (\<lambda>chunk. chunk @ [CHR 0x0A, CHR 0x0A]) (chunk_text text 200)))
     \<and> (output_file w' = Some (join_nl (chunk_text text 200)) \<longleftrightarrow> chunk_text text 200 = [])
     \<and> (output_file w' = Some (concat (chunk_text text 200)) \<longleftrightarrow> chunk_text text 200 = [])
     \<and> log_file w' = Some ld \<and> cleaned_chunks ld = Some 0 \<and> status ld = ''completed''"
proof -
  let ?cs = "chunk_text text 200"
  let ?n = "length ?cs"
  let ?ld1 = "\<lparr>file_name = base_name, start_time = clock w, status = ''processing'',
                errors = [], chunks_info = [], total_chunks = Some ?n, end_time = None,
                processing_time = None, cleaned_chunks = None\<rparr>"
  from persist_chunks_ok [OF cw, of 1 ?cs] obtain w1 where
    ps: "persist_chunks (enumerate 1 ?cs) w = (None, w1)" and
    pf: "\<forall>j. chunk_files w1 j =
           (if 1 \<le> j \<and> j < 1 + ?n then Some (?cs ! (j - 1)) else chunk_files w j)" and
    fr: "service w1 = service w" "chunk_write_error w1 = chunk_write_error w"
      "output_write_error w1 = output_write_error w"
    by blast
  have r1: "\<forall>k. \<exists>msg. service w1 k = RaisesAPIError msg \<and> sublist ''content filtering'' (lower msg)"
    using rej fr by simp
  have c1: "\<forall>k. chunk_write_error w1 k = None" using cw fr by simp
  have nocr: "CHR 0x0D \<notin> set (?cs ! i)" if "i < ?n" for i
  proof -
    from that have "?cs ! i \<in> set ?cs" by simp
    with read_file_no_cr [OF rd] show ?thesis by (rule chunk_text_no_cr)
  qed
  have f1: "\<forall>i\<in>set [0..<?n]. chunk_files w1 (Suc i) = Some (?cs ! i) \<and> CHR 0x0D \<notin> set (?cs ! i)"
    using pf nocr by simp
  from process_chunks_rejected [OF r1 c1 _ f1, of fuel ?n ?ld1 0] obtain ld2 w2 where
    pc: "process_chunks (Suc fuel) [0..<?n] ?n (?ld1, 0, w1) = Some (ld2, 0, w2)" and
    o2: "output_write_error w2 = output_write_error w1" and
    f2: "\<forall>i\<in>set [0..<?n]. chunk_files w2 (Suc i) = Some (?cs ! i @ [CHR 0x0A, CHR 0x0A])"
    by auto
  have o2': "output_write_error w2 = None"
    using o2 ow fr by simp
  have rt: "read_text (?cs ! i @ [CHR 0x0A, CHR 0x0A]) = ?cs ! i @ [CHR 0x0A, CHR 0x0A]"
    if "i \<in> set [0..<?n]" for i
    using nocr [of i] that by (intro read_text_id) auto
  have "combine_chunks (chunk_files w2) (map Suc [0..<?n]) [] =
      [] @ concat (map (\<lambda>i. read_text (?cs ! i @ [CHR 0x0A, CHR 0x0A])) [0..<?n])"
    using f2 by (rule combine_chunks_all)
  also have "map (\<lambda>i. read_text (?cs ! i @ [CHR 0x0A, CHR 0x0A])) [0..<?n] =
      map (\<lambda>i. ?cs ! i @ [CHR 0x0A, CHR 0x0A]) [0..<?n]"
    using rt by (intro map_cong) auto
  finally have cmb: "combine_chunks (chunk_files w2) [1..<?n + 1] [] =
      concat (map (\<lambda>chunk. chunk @ [CHR 0x0A, CHR 0x0A]) ?cs)"
    by (simp add: map_Suc_upt concat_map_nth [of "\<lambda>c. c @ [CHR 0x0A, CHR 0x0A]"])
  show ?thesis
    using rd ps pc o2' cmb
    by (simp add: process_text_file_def finalize_def Let_def
        separated_eq_join_iff separated_eq_concat_iff)
qed

theorem all_rejected_output_witness:
  "\<exists>w' ld. process_text_file 1 ''book.txt'' ''book''
        (\<lambda>encoding. Content (lines_of 150 100 150))
        (fresh_world (\<lambda>k. RaisesAPIError ''Content filtering triggered'')) =
      Some (Inr (0, 2), w')
     \<and> output_file w' =
         Some (replicate 150 (CHR ''a'') @ [CHR 0x0A, CHR 0x0A]
               @ replicate 150 (CHR ''b'') @ [CHR 0x0A, CHR 0x0A])
     \<and> log_file w' = Some ld \<and> cleaned_chunks ld = Some 0 \<and> status ld = ''completed''"
proof -
  have h: "sublist ''content filtering'' (lower ''Content filtering triggered'')"
    by code_simp
  have rej: "\<forall>k. \<exists>msg.
      service (fresh_world (\<lambda>k. RaisesAPIError ''Content filtering triggered'')) k =
        RaisesAPIError msg \<and> sublist ''content filtering'' (lower msg)"
    using h by (simp add: fresh_world_def)
  have rd: "read_file_with_fallback_encoding ''book.txt''
      (\<lambda>encoding. Content (lines_of 150 100 150)) = Inr (lines_of 150 100 150)"
    by code_simp
  have cw: "\<forall>k. chunk_write_error
      (fresh_world (\<lambda>k. RaisesAPIError ''Content filtering triggered'')) k = None"
    by (simp add: fresh_world_def)
  have ow: "output_write_error (fresh_world (\<lambda>k. RaisesAPIError ''Content filtering triggered''))
      = None"
    by (simp add: fresh_world_def)
  have cs: "chunk_text (lines_of 150 100 150) 200 =
      [replicate 150 (CHR ''a''), replicate 150 (CHR ''b'')]"
    by code_simp
  show ?thesis
    using all_rejected_output [OF rej rd cw ow, of 0 "''book''"] by (auto simp: cs)
qed

text \<open>
  Claim C6, as the code has it. \<open>log_data["total_chunks"]\<close> is assigned after the text
  was read and chunked. When the read fails, the log that is persisted has no total chunk
  count at all.
\<close>

theorem log_without_total_chunks_on_read_failure:
  "map_option (map_option total_chunks \<circ> log_file \<circ> snd)
     (process_text_file 1 ''notes.txt'' ''notes'' (\<lambda>encoding. RaisesOSError ''Is a directory'')
        (fresh_world (\<lambda>k. Response ''''))) =
     Some (Some None)"
  by (simp add: process_text_file_def read_file_with_fallback_encoding_def finalize_def)

text \<open>
  Claim C6, amended. On every exit path of \<open>process_text_file\<close> that is reached after
  the text was read and chunked, the persisted log's \<open>total_chunks\<close> is the number of
  chunks of the document. These paths are: the run completed; a chunk file could not be
  written before the transformation started (the log has status \<open>failed\<close> and the function
  then raises \<open>UnboundLocalError\<close>, as on a failed read); the cleaned output could not be
  written (status \<open>failed\<close>). Whenever the function returns a pair, its total is that
  number too.
\<close>

theorem log_total_chunks_after_chunking:
  assumes "read_file_with_fallback_encoding file_path src = Inr text"
    and "process_text_file fuel file_path base_name src w = Some (r, w')"
  shows "\<exists>ld. log_file w' = Some ld
      \<and> total_chunks ld = Some (length (chunk_text text 200))
      \<and> (status ld = ''completed'' \<or> status ld = ''failed'')
      \<and> (r = Inl (UnboundLocalError ''cleaned_chunks'') \<and> status ld = ''failed''
          \<or> (\<exists>c. r = Inr (c, length (chunk_text text 200))))"
  using process_text_file_after_read [OF assms] by blast

theorem log_total_chunks_after_chunking_witness:
  "map_option
     (\<lambda>(r, w'). (r, map_option total_chunks (log_file w'), map_option status (log_file w')))
     (process_text_file 1 ''book.txt'' ''book'' (\<lambda>encoding. Content (lines_of 150 100 150))
        ((fresh_world (\<lambda>k. Response ''done''))
           \<lparr>chunk_write_error :=
              (\<lambda>k. if k = 1 then Some (OSError ''No space left on device'') else None)\<rparr>)) =
     Some (Inl (UnboundLocalError ''cleaned_chunks''), Some (Some 2), Some ''failed'')
   \<and> map_option
     (\<lambda>(r, w'). (r, map_option total_chunks (log_file w'), map_option status (log_file w')))
     (process_text_file 1 ''book.txt'' ''book'' (\<lambda>encoding. Content (lines_of 150 100 150))
        ((fresh_world (\<lambda>k. Response ''done''))
           \<lparr>output_write_error := Some (OSError ''No space left on device'')\<rparr>)) =
     Some (Inr (2, 2), Some (Some 2), Some ''failed'')"
proof -
  have rd: "read_file_with_fallback_encoding ''book.txt''
      (\<lambda>encoding. Content (lines_of 150 100 150)) = Inr (lines_of 150 100 150)"
    by code_simp
  have cs: "length (chunk_text (lines_of 150 100 150) 200) = 2"
    by code_simp
  have ev1: "map_option
     (\<lambda>(r, w'). (r, map_option total_chunks (log_file w'), map_option status (log_file w')))
     (process_text_file 1 ''book.txt'' ''book'' (\<lambda>encoding. Content (lines_of 150 100 150))
        ((fresh_world (\<lambda>k. Response ''done''))
           \<lparr>chunk_write_error :=
              (\<lambda>k. if k = 1 then Some (OSError ''No space left on device'') else None)\<rparr>)) =
     Some (Inl (UnboundLocalError ''cleaned_chunks''), Some (Some 2), Some ''failed'')"
    by code_simp
  have ev2: "map_option
     (\<lambda>(r, w'). (r, map_option total_chunks (log_file w'), map_option status (log_file w')))
     (process_text_file 1 ''book.txt'' ''book'' (\<lambda>encoding. Content (lines_of 150 100 150))
        ((fresh_world (\<lambda>k. Response ''done''))
           \<lparr>output_write_error := Some (OSError ''No space left on device'')\<rparr>)) =
     Some (Inr (2, 2), Some (Some 2), Some ''failed'')"
    by code_simp
  from ev1 obtain r w' where run: "process_text_file 1 ''book.txt'' ''book''
        (\<lambda>encoding. Content (lines_of 150 100 150))
        ((fresh_world (\<lambda>k. Response ''done''))
           \<lparr>chunk_write_error :=
              (\<lambda>k. if k = 1 then Some (OSError ''No space left on device'') else None)\<rparr>) =
        Some (r, w')"
    by auto
  from log_total_chunks_after_chunking [OF rd run] ev1 ev2 show ?thesis
    by blast
qed

text \<open>
  Claim C1 does not hold of the code. When reading the source file raises (the path
  cannot be opened, or no encoding decodes it), the handler marks the log as failed and
  the \<open>finally\<close> block persists it, but the \<open>return cleaned_chunks, len(chunks)\<close> that
  follows reads two locals that were never assigned: \<open>process_text_file\<close> raises
  \<open>UnboundLocalError\<close> instead of returning a pair.
\<close>

theorem process_text_file_raises_on_unreadable_file:
  "process_text_file fuel file_path base_name (\<lambda>encoding. RaisesOSError msg) w =
     Some (Inl (UnboundLocalError ''cleaned_chunks''),
           w\<lparr>log_file := Some \<lparr>file_name = base_name, start_time = clock w, status = ''failed'',
               errors = [DocumentError (OSError msg)], chunks_info = [], total_chunks = None,
               end_time = Some (clock w), processing_time = Some 0, cleaned_chunks = None\<rparr>\<rparr>)
   \<and> process_text_file fuel file_path base_name (\<lambda>encoding. RaisesUnicodeDecodeError) w =
     Some (Inl (UnboundLocalError ''cleaned_chunks''),
           w\<lparr>log_file := Some \<lparr>file_name = base_name, start_time = clock w, status = ''failed'',
               errors = [DocumentError (ValueError (''Unable to read the file '' @ file_path
                  @ '' with any of the attempted encodings''))],
               chunks_info = [], total_chunks = None,
               end_time = Some (clock w), processing_time = Some 0, cleaned_chunks = None\<rparr>\<rparr>)"
  by (simp add: process_text_file_def read_file_with_fallback_encoding_def finalize_def)

section \<open>Properties of the batch\<close>

text \<open>
  Claim C2 does not hold of the code. In a batch of three documents of which \<open>B\<close>
  cannot be read, the workers of \<open>A\<close> and \<open>C\<close> return \<open>(1, 1)\<close>, and the log of \<open>B\<close>
  has status \<open>failed\<close> and one error; but the worker of \<open>B\<close> raises
  \<open>UnboundLocalError\<close>, \<open>future.result()\<close> raises it again in \<open>main\<close>, and \<open>main\<close>
  ends with this exception, in whichever order the three workers complete: no summary is
  produced.
\<close>

theorem batch_with_unreadable_document_raises:
  "map_option fst
     (process_text_file 1 ''A.txt'' ''A'' (\<lambda>encoding. Content ''Hello world'')
        (fresh_world (\<lambda>k. Response ''Hello world''))) = Some (Inr (1, 1))
   \<and> map_option (\<lambda>(r, w'). (r, map_option status (log_file w'), map_option errors (log_file w')))
       (process_text_file 1 ''B.txt'' ''B'' (\<lambda>encoding. RaisesUnicodeDecodeError)
          (fresh_world (\<lambda>k. Response ''Hello world''))) =
       Some (Inl (UnboundLocalError ''cleaned_chunks''), Some ''failed'',
             Some [DocumentError (ValueError
               ''Unable to read the file B.txt with any of the attempted encodings'')])
   \<and> map_option (\<lambda>(r, w'). (r, map_option status (log_file w'), map_option errors (log_file w')))
       (process_text_file 1 ''B.txt'' ''B'' (\<lambda>encoding. RaisesOSError ''Is a directory'')
          (fresh_world (\<lambda>k. Response ''Hello world''))) =
       Some (Inl (UnboundLocalError ''cleaned_chunks''), Some ''failed'',
             Some [DocumentError (OSError ''Is a directory'')])
   \<and> map_option fst
       (process_text_file 1 ''C.txt'' ''C'' (\<lambda>encoding. Content ''Hello again'')
          (fresh_world (\<lambda>k. Response ''Hello again''))) = Some (Inr (1, 1))
   \<and> main [Inl (UnboundLocalError ''cleaned_chunks''), Inr (1, 1), Inr (1, 1)] =
       Inl (UnboundLocalError ''cleaned_chunks'')
   \<and> main [Inr (1, 1), Inl (UnboundLocalError ''cleaned_chunks''), Inr (1, 1)] =
       Inl (UnboundLocalError ''cleaned_chunks'')
   \<and> main [Inr (1, 1), Inr (1, 1), Inl (UnboundLocalError ''cleaned_chunks'')] =
       Inl (UnboundLocalError ''cleaned_chunks'')"
  by (simp add: run_simps main_def)

lemma as_completed_loop_pairs:
  "as_completed_loop (map Inr ps) (a, b, c) =
     Inr (a + int (length (filter (\<lambda>(c, t). 0 < c) ps)),
          b + (\<Sum>(c, t)\<leftarrow>ps. int t), c + (\<Sum>(c, t)\<leftarrow>ps. int c))"
  by (induction ps arbitrary: a b c) (auto split: prod.splits)

lemma length_filter_zero:
  "int (length ps) - int (length (filter (\<lambda>(c, t). 0 < c) ps)) =
   int (length (filter (\<lambda>(c::nat, t::nat). c = 0) ps))"
  by (induction ps) (auto split: prod.splits)

lemma as_completed_loop_returns:
  "as_completed_loop rs acc = Inr acc' \<Longrightarrow> \<exists>ps. rs = map Inr ps"
proof (induction rs arbitrary: acc)
  case Nil
  then show ?case by simp
next
  case (Cons r rs)
  obtain a b c where acc: "acc = (a, b, c)" by (cases acc) auto
  from Cons.prems acc obtain p where r: "r = Inr p"
    by (cases r) auto
  obtain x y where p: "p = (x, y)" by (cases p) auto
  from Cons.prems acc r p obtain acc1 where "as_completed_loop rs acc1 = Inr acc'"
    by auto
  from Cons.IH [OF this] obtain ps where "rs = map Inr ps" by blast
  with r have "r # rs = map Inr (p # ps)" by simp
  then show ?case by (rule exI)
qed

text \<open>A summary is produced only when every worker returned its pair.\<close>

lemma main_summary_only_if_all_returned:
  "main rs = Inr s \<Longrightarrow> \<exists>ps. rs = map Inr ps"
proof -
  assume "main rs = Inr s"
  then obtain acc' where "as_completed_loop rs (0, 0, 0) = Inr acc'"
    by (auto simp: main_def split: sum.splits)
  then show ?thesis by (rule as_completed_loop_returns)
qed

text \<open>
  Claim C10. For every batch whose workers all returned their pair (the batches for
  which \<open>main\<close> produces a summary), the summary counts
  in \<open>successful_files\<close> exactly the documents whose returned cleaned-chunk count is
  greater than 0, and in \<open>failed_files\<close> exactly those whose count is 0: a document
  that completed with no transformed chunk is counted among the failed files.
\<close>

theorem main_counts_successful_files:
  "\<exists>s. main (map Inr ps) = Inr s
     \<and> successful_files s = int (length (filter (\<lambda>(c, t). 0 < c) ps))
     \<and> failed_files s = int (length (filter (\<lambda>(c, t). c = 0) ps))
     \<and> total_files s = int (length ps)"
  by (simp add: main_def as_completed_loop_pairs length_filter_zero)

end
